theory Spec2Isabelle
  imports Complex_Main "HOL-Library.Multiset"
begin

section \<open>Common ground: Python errors, float values, securities\<close>

text \<open>
  The four strategies are Python scripts over numpy arrays and pandas frames.  Exceptions
  are values of \<open>py_error\<close>; a computation that may raise returns \<open>py_error + 'a\<close>.
\<close>

datatype py_error = IndexError | ValueError | ZeroDivisionError

text \<open>
  A float64 is modelled by its IEEE class: a finite number (carried as a real, so rounding
  and signed zeros are left out), the two infinities, and NaN.
\<close>

datatype fl = Num real | PInf | NInf | NaN

text \<open>A security is identified by its integer sid.\<close>

type_synonym security = nat

definition isnan :: "fl \<Rightarrow> bool" where
  "isnan x = (case x of NaN \<Rightarrow> True | _ \<Rightarrow> False)"

text \<open>
  Python's \<open>a / b\<close> on two floats (as in \<open>MAX_GROSS_LEVERAGE / float(len(...))\<close>) raises
  ZeroDivisionError when the divisor is zero.  The quotient is kept exact here: the
  allocators of the next section are studied for whether the division is reached, not
  for the digits of its result.
\<close>

definition py_float_div :: "real \<Rightarrow> real \<Rightarrow> py_error + real" where
  "py_float_div a b = (if b = 0 then Inl ZeroDivisionError else Inr (a / b))"

section \<open>Weight allocation in the long-only strategies\<close>

definition MAX_GROSS_LEVERAGE :: real where
  "MAX_GROSS_LEVERAGE = 1.0"

definition MAX_LONG_POSITION_SIZE :: real where
  "MAX_LONG_POSITION_SIZE = 0.04"

text \<open>
  My_Magic_Formula.py, \<open>before_trading_start\<close>, lines 94-102: the weight stored in
  \<open>context.weight\<close>, as a function of the buy list (only its length is read).
  \<^verbatim>\<open>
    if len(context.buy_list) != 0:
        context.weight = MAX_GROSS_LEVERAGE / float(len(context.buy_list))
    else:
        context.weight = 0
    if context.weight > MAX_LONG_POSITION_SIZE :
        context.weight = 0.04
  \<close>
\<close>

definition mf_weight :: "'a list \<Rightarrow> py_error + real" where
  "mf_weight buy_list =
     (case (if length buy_list \<noteq> 0
            then py_float_div MAX_GROSS_LEVERAGE (real (length buy_list))
            else Inr 0) of
        Inl e \<Rightarrow> Inl e
      | Inr weight \<Rightarrow> Inr (if weight > MAX_LONG_POSITION_SIZE then 0.04 else weight))"

text \<open>
  My_Value_Long_only_Algo.py, \<open>rebalance\<close>, lines 118-130: \<open>long_weight\<close> and the buy
  orders \<open>order_target_percent(long_stock, long_weight)\<close> for the tradable members of
  the long list.
\<close>

definition vl_long_weight :: "'a list \<Rightarrow> py_error + real" where
  "vl_long_weight long_list =
     (case (if length long_list \<noteq> 0
            then py_float_div MAX_GROSS_LEVERAGE (real (length long_list))
            else Inr 0) of
        Inl e \<Rightarrow> Inl e
      | Inr long_weight \<Rightarrow>
          Inr (if long_weight > MAX_LONG_POSITION_SIZE then 0.04 else long_weight))"

text \<open>The order requests a callback hands to the platform.\<close>

datatype order = Order_target_percent security real | Order_target security int

definition vl_buy_orders :: "(security \<Rightarrow> bool) \<Rightarrow> security list \<Rightarrow> py_error + order list" where
  "vl_buy_orders can_trade long_list =
     (case vl_long_weight long_list of
        Inl e \<Rightarrow> Inl e
      | Inr long_weight \<Rightarrow>
          Inr (map (\<lambda>long_stock. Order_target_percent long_stock long_weight)
                 (filter can_trade long_list)))"

text \<open>
  The liquidation loop of the same callback (lines 132-137):
  \<^verbatim>\<open>
    for stock in context.portfolio.positions:
        if stock not in context.long_list.index:
            if data.can_trade(stock):
                order_target(stock, 0)
  \<close>
\<close>

fun vl_sell_loop :: "(security \<Rightarrow> bool) \<Rightarrow> security list \<Rightarrow> security list \<Rightarrow> order list" where
  "vl_sell_loop can_trade long_list [] = []"
| "vl_sell_loop can_trade long_list (stock # positions) =
     (if stock \<notin> set long_list
      then (if can_trade stock
            then Order_target stock 0 # vl_sell_loop can_trade long_list positions
            else vl_sell_loop can_trade long_list positions)
      else vl_sell_loop can_trade long_list positions)"

definition vl_rebalance ::
  "(security \<Rightarrow> bool) \<Rightarrow> security list \<Rightarrow> security list \<Rightarrow> py_error + order list" where
  "vl_rebalance can_trade long_list positions =
     (case vl_buy_orders can_trade long_list of
        Inl e \<Rightarrow> Inl e
      | Inr buys \<Rightarrow> Inr (buys @ vl_sell_loop can_trade long_list positions))"

section \<open>The yearly strategy (Developed on Black_Cat_Acquirer_Multiple.py)\<close>

text \<open>
  The fields of \<open>context\<close> that the callbacks read and write.  \<open>initialize\<close> (lines
  64-67) sets \<open>month_to_run\<close> to -1 and \<open>NUM_STOCKS_TO_BUY\<close> to 25; the security list and
  the weights are assigned later by \<open>before_trading_start\<close> and \<open>rebalance\<close> and start
  here as empty.
\<close>

record bc_context =
  month_to_run :: int
  NUM_STOCKS_TO_BUY :: nat
  security_list :: "security list"
  weights :: "security \<rightharpoonup> real"

definition bc_initialize :: bc_context where
  "bc_initialize =
     \<lparr>month_to_run = - 1, NUM_STOCKS_TO_BUY = 25, security_list = [], weights = Map.empty\<rparr>"

text \<open>
  \<open>before_trading_start\<close> (lines 194-208) stores the index of the sorted pipeline output
  in \<open>context.security_list\<close>; the argument is that index.
\<close>

definition bc_before_trading_start :: "bc_context \<Rightarrow> security list \<Rightarrow> bc_context" where
  "bc_before_trading_start context output_index = context\<lparr>security_list := output_index\<rparr>"

text \<open>
  Python floats are float64.  A real number is rounded to the nearest float64, ties to
  the even significand: with \<open>e\<close> the binary exponent of \<open>x\<close>, the float64 values
  near \<open>x\<close> are the multiples of \<open>2 ^ (e - 52)\<close>.  (Normal range: no overflow to
  infinity and no subnormals, which the weights of a strategy never reach.)
\<close>

definition round_half_even :: "real \<Rightarrow> int" where
  "round_half_even x =
     (let f = \<lfloor>x\<rfloor>
      in if x - of_int f < 1 / 2 then f
         else if 1 / 2 < x - of_int f then f + 1
         else if even f then f else f + 1)"

definition float64_round :: "real \<Rightarrow> real" where
  "float64_round x =
     (if x = 0 then 0
      else (let ulp = 2 powr (of_int \<lfloor>log 2 \<bar>x\<bar>\<rfloor> - 52)
            in of_int (round_half_even (x / ulp)) * ulp))"

text \<open>
  \<open>a / b\<close> on float64 operands: the quotient rounded to float64; ZeroDivisionError when
  the divisor is zero.
\<close>

definition float64_div :: "real \<Rightarrow> real \<Rightarrow> py_error + real" where
  "float64_div a b = (if b = 0 then Inl ZeroDivisionError else Inr (float64_round (a / b)))"

text \<open>
  The loop of lines 238-241, where the literal \<open>0.99\<close> is the float64 nearest to 99/100
  and the integer \<open>NUM_STOCKS_TO_BUY\<close> is converted to a float:
  \<^verbatim>\<open>
    context.weights = {}
    for sec in context.security_list:
        if data.can_trade(sec):
            context.weights[sec] = 0.99/context.NUM_STOCKS_TO_BUY
  \<close>
\<close>

fun bc_weights_loop ::
  "nat \<Rightarrow> (security \<Rightarrow> bool) \<Rightarrow> security list \<Rightarrow> (security \<rightharpoonup> real)
   \<Rightarrow> py_error + (security \<rightharpoonup> real)" where
  "bc_weights_loop n can_trade [] w = Inr w"
| "bc_weights_loop n can_trade (sec # rest) w =
     (if can_trade sec
      then (case float64_div (float64_round (99 / 100)) (real n) of
              Inl e \<Rightarrow> Inl e
            | Inr x \<Rightarrow> bc_weights_loop n can_trade rest (w(sec \<mapsto> x)))
      else bc_weights_loop n can_trade rest w)"

text \<open>
  \<open>rebalance\<close> (lines 211-247).  The result is the updated context and the target-weight
  map passed to \<open>order_optimal_portfolio\<close>, or \<open>None\<close> when nothing is submitted.
\<close>

definition bc_rebalance ::
  "bc_context \<Rightarrow> (security \<Rightarrow> bool) \<Rightarrow> int
   \<Rightarrow> py_error + (bc_context \<times> (security \<rightharpoonup> real) option)" where
  "bc_rebalance context can_trade today_month =
     (let (context1, rebalanceNow) =
        (if month_to_run context = - 1
         then (context\<lparr>month_to_run := today_month\<rparr>, True)
         else if month_to_run context = today_month then (context, True)
         else (context, False))
      in if rebalanceNow
         then (case bc_weights_loop (NUM_STOCKS_TO_BUY context1) can_trade
                      (security_list context1) Map.empty of
                 Inl e \<Rightarrow> Inl e
               | Inr w \<Rightarrow> Inr (context1\<lparr>weights := w\<rparr>, Some w))
         else Inr (context1, None))"

text \<open>
  One scheduled invocation: what the platform supplies on that day (the calendar month of
  \<open>get_datetime\<close>, the index of the pipeline output, and \<open>data.can_trade\<close>).
\<close>

record bc_day =
  today_month :: int
  output_index :: "security list"
  tradable :: "security \<Rightarrow> bool"

text \<open>
  The scheduler calls \<open>before_trading_start\<close> and then \<open>rebalance\<close> on each scheduled
  day, threading the context; the run collects what each invocation submitted.
\<close>

fun bc_run ::
  "bc_context \<Rightarrow> bc_day list
   \<Rightarrow> py_error + (bc_context \<times> (security \<rightharpoonup> real) option list)" where
  "bc_run context [] = Inr (context, [])"
| "bc_run context (d # ds) =
     (case bc_rebalance (bc_before_trading_start context (output_index d))
             (tradable d) (today_month d) of
        Inl e \<Rightarrow> Inl e
      | Inr (context1, submitted) \<Rightarrow>
          (case bc_run context1 ds of
             Inl e \<Rightarrow> Inl e
           | Inr (context2, rest) \<Rightarrow> Inr (context2, submitted # rest)))"

text \<open>
  What an invocation submitted, and the sum of the weights of a target-weight map: the
  exact sum of the float64 values it holds.
\<close>

definition submitted_weights ::
  "py_error + (bc_context \<times> (security \<rightharpoonup> real) option) \<Rightarrow> (security \<rightharpoonup> real) option" where
  "submitted_weights r = (case r of Inl e \<Rightarrow> None | Inr (context, w) \<Rightarrow> w)"

definition weights_total :: "(security \<rightharpoonup> real) \<Rightarrow> real" where
  "weights_total w = sum (\<lambda>s. the (w s)) (dom w)"

section \<open>Forward fill (My_Value_Long_only_Algo.py, nanfill)\<close>

text \<open>
  A numpy array of floats, one- or two-dimensional.  A two-dimensional array is the list
  of its rows; a pipeline window has one row per day (axis 0) and one column per security
  (axis 1), as \<open>close[-10]/close[0]\<close> and \<open>np.std(close, axis=0)\<close> in the same file
  read it.
\<close>

datatype ndarray = A1 "fl list" | A2 "fl list list"

text \<open>\<open>mask.shape[1]\<close> of a two-dimensional array: the length of a row.\<close>

definition shape1 :: "'a list list \<Rightarrow> nat" where
  "shape1 arr = (case arr of [] \<Rightarrow> 0 | row # _ \<Rightarrow> length row)"

text \<open>\<open>mask = np.isnan(arr)\<close>\<close>

definition np_isnan :: "fl list list \<Rightarrow> bool list list" where
  "np_isnan arr = map (map isnan) arr"

text \<open>
  \<open>idx = np.where(~mask, np.arange(mask.shape[1]), 0)\<close>: in every row, position \<open>c\<close>
  holds \<open>c\<close> where the entry is a number and 0 where it is NaN.
\<close>

definition np_where_arange :: "bool list list \<Rightarrow> nat list list" where
  "np_where_arange isnan_mask =
     map (\<lambda>row. map (\<lambda>c. if \<not> row ! c then c else 0) [0..<shape1 isnan_mask])
         isnan_mask"

text \<open>
  \<open>np.maximum.accumulate(idx, axis=1, out=idx)\<close>: the running maximum along axis 1,
  that is, within each row.
\<close>

fun running_max :: "nat \<Rightarrow> nat list \<Rightarrow> nat list" where
  "running_max m [] = []"
| "running_max m (x # xs) = max m x # running_max (max m x) xs"

definition maximum_accumulate_axis1 :: "nat list list \<Rightarrow> nat list list" where
  "maximum_accumulate_axis1 idx = map (running_max 0) idx"

text \<open>
  \<open>arr[mask] = arr[np.nonzero(mask)[0], idx[mask]]\<close>: the right-hand side is read from
  the array before the assignment; the entry at a masked position \<open>(r, c)\<close> becomes the
  old entry at \<open>(r, idx[r, c])\<close>, every other entry stays.
\<close>

definition assign_masked ::
  "fl list list \<Rightarrow> bool list list \<Rightarrow> nat list list \<Rightarrow> fl list list" where
  "assign_masked arr isnan_mask idx =
     map (\<lambda>r. map (\<lambda>c. if isnan_mask ! r ! c then arr ! r ! (idx ! r ! c) else arr ! r ! c)
                [0..<shape1 arr])
         [0..<length arr]"

text \<open>The array that \<open>nanfill\<close> leaves in \<open>arr\<close> and returns (lines 279-284).\<close>

definition nanfill :: "fl list list \<Rightarrow> fl list list" where
  "nanfill arr =
     (let isnan_mask = np_isnan arr;
          idx = maximum_accumulate_axis1 (np_where_arange isnan_mask)
      in assign_masked arr isnan_mask idx)"

text \<open>
  Arrays are objects: a store maps references to arrays, and a call receives and returns
  references.  \<open>nanfill\<close> assigns into \<open>arr\<close> and returns \<open>arr\<close>; \<open>mask.shape[1]\<close>
  raises IndexError on a one-dimensional array.
\<close>

type_synonym ref = nat

type_synonym store = "ref \<Rightarrow> ndarray"

definition nanfill_ref :: "store \<Rightarrow> ref \<Rightarrow> py_error + (store \<times> ref)" where
  "nanfill_ref h arr =
     (case h arr of
        A1 xs \<Rightarrow> Inl IndexError
      | A2 a \<Rightarrow> Inr (h(arr := A2 (nanfill a)), arr))"

text \<open>
  \<open>out[:] = pb\<close> for the one-dimensional \<open>out\<close> and a two-dimensional value: a window of
  one row is copied into \<open>out\<close> when the lengths agree; any other shape does not
  broadcast.
\<close>

definition assign_out :: "store \<Rightarrow> ref \<Rightarrow> ref \<Rightarrow> py_error + store" where
  "assign_out h out v =
     (case (h out, h v) of
        (A1 old, A2 [row]) \<Rightarrow>
          if length row = length old then Inr (h(out := A1 row)) else Inl ValueError
      | _ \<Rightarrow> Inl ValueError)"

text \<open>
  \<open>Price_to_Book.compute\<close> (lines 198-200):
  \<^verbatim>\<open>
    pb = nanfill(pb)
    out[:] = pb
  \<close>
\<close>

definition Price_to_Book_compute :: "store \<Rightarrow> ref \<Rightarrow> ref \<Rightarrow> py_error + store" where
  "Price_to_Book_compute h out pb =
     (case nanfill_ref h pb of
        Inl e \<Rightarrow> Inl e
      | Inr (h1, pb1) \<Rightarrow> assign_out h1 out pb1)"

section \<open>The long/short strategy: liquidation (Developed on Guy_Fleury_Piotroski-F-Score.py)\<close>

text \<open>
  \<open>trade\<close> (lines 192-200).  Its arguments are the indexes of \<open>context.long_stocks\<close> and
  \<open>context.short_stocks\<close>, \<open>data\<close> (of which the strategies use \<open>can_trade\<close>) and the
  held positions; it returns the orders placed and the new value of
  \<open>context.is_month_end\<close>.
  \<^verbatim>\<open>
    for stock in context.portfolio.positions:
        if stock not in context.long_stocks.index and stock not in context.short_stocks.index:
            order_target_percent(stock, 0)
    context.is_month_end = False
  \<close>
\<close>

fun pt_trade_loop :: "security list \<Rightarrow> security list \<Rightarrow> security list \<Rightarrow> order list" where
  "pt_trade_loop long_stocks short_stocks [] = []"
| "pt_trade_loop long_stocks short_stocks (stock # positions) =
     (if stock \<notin> set long_stocks \<and> stock \<notin> set short_stocks
      then Order_target_percent stock 0 # pt_trade_loop long_stocks short_stocks positions
      else pt_trade_loop long_stocks short_stocks positions)"

definition pt_trade ::
  "security list \<Rightarrow> security list \<Rightarrow> (security \<Rightarrow> bool) \<Rightarrow> security list
   \<Rightarrow> order list \<times> bool" where
  "pt_trade long_stocks short_stocks can_trade positions =
     (pt_trade_loop long_stocks short_stocks positions, False)"

section \<open>The Magic Formula universe (My_Magic_Formula.py, make_pipeline)\<close>

text \<open>Comparison of floats: every comparison with NaN is false.\<close>

fun fl_less :: "fl \<Rightarrow> fl \<Rightarrow> bool" where
  "fl_less NaN y = False"
| "fl_less x NaN = False"
| "fl_less (Num a) (Num b) = (a < b)"
| "fl_less x NInf = False"
| "fl_less NInf y = True"
| "fl_less PInf y = False"
| "fl_less x PInf = True"

definition fl_le :: "fl \<Rightarrow> fl \<Rightarrow> bool" where
  "fl_le x y = (\<not> isnan x \<and> \<not> isnan y \<and> (fl_less x y \<or> x = y))"

text \<open>
  What the platform knows of a security on an evaluation date, as far as the universe
  reads it: membership of QTradableStocksUS, the Morningstar sector code (\<open>None\<close> when
  missing) and the latest market capitalisation.
\<close>

record mf_security =
  sid :: security
  in_QTradableStocksUS :: bool
  sector_code :: "int option"
  market_cap :: fl

text \<open>
  Line 62 compares the name \<open>Sector\<close>, which the import of line 11 binds to the
  classifier class, with the integers 103 and 207; the classifier instance of line 56 is
  \<open>Sector()\<close>.  The operands of such a comparison are Python objects, and \<open>!=\<close> between
  a class and an integer, neither of which defines the comparison, is true exactly when
  they are not the same object.
\<close>

datatype py_object = Py_class string | Py_int int

definition py_ne :: "py_object \<Rightarrow> py_object \<Rightarrow> bool" where
  "py_ne a b = (a \<noteq> b)"

text \<open>\<open>not_Finan_and_Ulti = ((Sector != 103) & (Sector != 207))\<close>\<close>

definition not_Finan_and_Ulti :: bool where
  "not_Finan_and_Ulti =
     (py_ne (Py_class ''Sector'') (Py_int 103) \<and> py_ne (Py_class ''Sector'') (Py_int 207))"

text \<open>\<open>medium_cap = Fundamentals.market_cap.latest > 1000000000\<close>\<close>

definition medium_cap :: "mf_security \<Rightarrow> bool" where
  "medium_cap s = fl_less (Num 1000000000) (market_cap s)"

text \<open>
  The final universe of lines 56 and 65, which is the pipeline's screen and the mask of
  both ranks: \<open>QTradableStocksUS() & Sector().notnull()\<close>, then
  \<open>universe & medium_cap & not_Finan_and_Ulti\<close>, where a filter combined with a Python
  boolean is combined with that constant.
\<close>

definition mf_universe :: "mf_security \<Rightarrow> bool" where
  "mf_universe s =
     (((in_QTradableStocksUS s \<and> sector_code s \<noteq> None) \<and> medium_cap s) \<and> not_Finan_and_Ulti)"

section \<open>Ratio factors and the Magic Formula buy list\<close>

text \<open>
  Division of float64 array elements (numpy's \<open>/\<close>): it never raises.  NaN operands and
  the indeterminate forms 0/0 and inf/inf give NaN; a nonzero number over zero gives an
  infinity.
\<close>

fun fl_div :: "fl \<Rightarrow> fl \<Rightarrow> fl" where
  "fl_div NaN y = NaN"
| "fl_div x NaN = NaN"
| "fl_div (Num a) (Num b) =
     (if b = 0 then (if a = 0 then NaN else if 0 < a then PInf else NInf) else Num (a / b))"
| "fl_div (Num a) y = Num 0"
| "fl_div PInf (Num b) = (if b < 0 then NInf else PInf)"
| "fl_div NInf (Num b) = (if b < 0 then PInf else NInf)"
| "fl_div x y = NaN"

text \<open>\<open>arr[-1]\<close>: the last row of a window; IndexError on a window without rows.\<close>

definition last_row :: "'a list list \<Rightarrow> py_error + 'a list" where
  "last_row arr = (if arr = [] then Inl IndexError else Inr (last arr))"

text \<open>
  Elementwise division of two one-dimensional arrays, with numpy's broadcasting of a
  length-one operand; other length mismatches raise ValueError.
\<close>

definition np_divide :: "fl list \<Rightarrow> fl list \<Rightarrow> py_error + fl list" where
  "np_divide a b =
     (if length a = length b then Inr (map2 fl_div a b)
      else if length a = 1 then Inr (map (fl_div (hd a)) b)
      else if length b = 1 then Inr (map (\<lambda>x. fl_div x (hd b)) a)
      else Inl ValueError)"

text \<open>
  \<open>out[:] = v\<close> for an \<open>out\<close> of \<open>n\<close> entries (one per security) and a
  one-dimensional value (an array or a list).
\<close>

definition assign_all :: "nat \<Rightarrow> 'a list \<Rightarrow> py_error + 'a list" where
  "assign_all n v =
     (if length v = n then Inr v
      else if length v = 1 then Inr (replicate n (hd v))
      else Inl ValueError)"

text \<open>
  \<open>Earnings_Yield.compute\<close> (My_Magic_Formula.py lines 161-163 and
  My_Value_Long_only_Algo.py lines 271-273, the same text):
  \<^verbatim>\<open>
    ey = ebit[-1] / ev[-1]
    out[:] = ey
  \<close>
  The result is the content of \<open>out\<close>.
\<close>

definition Earnings_Yield_compute ::
  "nat \<Rightarrow> fl list list \<Rightarrow> fl list list \<Rightarrow> py_error + fl list" where
  "Earnings_Yield_compute n ebit ev =
     (case last_row ebit of
        Inl e \<Rightarrow> Inl e
      | Inr a \<Rightarrow>
          (case last_row ev of
             Inl e \<Rightarrow> Inl e
           | Inr b \<Rightarrow>
               (case np_divide a b of
                  Inl e \<Rightarrow> Inl e
                | Inr ey \<Rightarrow> assign_all n ey)))"

text \<open>
  A row of the Magic Formula pipeline output (the columns of lines 78-84), indexed by the
  security.
\<close>

record mf_row =
  row_sid :: security
  earnings_yield :: fl
  Earnings_yield_rank :: fl
  roic :: fl
  Roic_rank :: fl
  MagicFormula_rank :: fl

text \<open>
  Sorting by a comparison: insertion into a sorted list, before the first element that
  is not smaller.
\<close>

fun insort_by :: "('a \<Rightarrow> 'a \<Rightarrow> bool) \<Rightarrow> 'a \<Rightarrow> 'a list \<Rightarrow> 'a list" where
  "insort_by le x [] = [x]"
| "insort_by le x (y # ys) = (if le x y then x # y # ys else y # insort_by le x ys)"

definition sort_by :: "('a \<Rightarrow> 'a \<Rightarrow> bool) \<Rightarrow> 'a list \<Rightarrow> 'a list" where
  "sort_by le xs = foldr (insort_by le) xs []"

text \<open>
  pandas' \<open>sort_values\<close> on a float column, ascending: the rows whose key is a number in
  ascending order of the key, then the rows whose key is NaN.  pandas leaves the order
  among equal keys to the sorting algorithm; here it is that of a stable sort, and the
  theorems below do not depend on it.
\<close>

definition sort_values_fl :: "('a \<Rightarrow> fl) \<Rightarrow> 'a list \<Rightarrow> 'a list" where
  "sort_values_fl col rows =
     sort_by (\<lambda>x y. fl_le (col x) (col y)) (filter (\<lambda>r. \<not> isnan (col r)) rows)
     @ filter (\<lambda>r. isnan (col r)) rows"

text \<open>\<open>dropna()\<close> keeps the rows none of whose columns is NaN.\<close>

definition mf_notna :: "mf_row \<Rightarrow> bool" where
  "mf_notna r =
     (\<not> isnan (earnings_yield r) \<and> \<not> isnan (Earnings_yield_rank r) \<and> \<not> isnan (roic r)
      \<and> \<not> isnan (Roic_rank r) \<and> \<not> isnan (MagicFormula_rank r))"

text \<open>
  The buy list of \<open>before_trading_start\<close> (line 92):
  \<open>context.output.sort_values(['MagicFormula_rank'], ascending=True).head(25).dropna()\<close>
\<close>

definition mf_buy_list :: "mf_row list \<Rightarrow> mf_row list" where
  "mf_buy_list output = filter mf_notna (take 25 (sort_values_fl MagicFormula_rank output))"

section \<open>The long/short strategy: score, screen and selection\<close>

text \<open>
  What the nine indicator factors read of one security: the first row \<open>[0]\<close> and the
  last row \<open>[-1]\<close> of each input window, the latest EV/EBITDA, and the value of the
  filter term \<open>market_cap\<close> of line 151 for that security.
\<close>

record pt_inputs =
  pt_sid :: security
  roa_first :: fl
  roa_last :: fl
  cash_flow_last :: fl
  cash_flow_from_ops_last :: fl
  long_term_debt_ratio_first :: fl
  long_term_debt_ratio_last :: fl
  current_ratio_first :: fl
  current_ratio_last :: fl
  shares_outstanding_first :: fl
  shares_outstanding_last :: fl
  gross_margin_first :: fl
  gross_margin_last :: fl
  assets_turnover_first :: fl
  assets_turnover_last :: fl
  ev_to_ebitda_latest :: fl
  market_cap_filter :: bool

text \<open>\<open>(condition).astype(int)\<close>\<close>

definition astype_int :: "bool \<Rightarrow> int" where
  "astype_int b = (if b then 1 else 0)"

text \<open>The factor classes of lines 76-137, each for one security.\<close>

definition ROA :: "pt_inputs \<Rightarrow> int" where
  "ROA x = astype_int (fl_less (Num 0) (roa_last x))"

definition ROAChange :: "pt_inputs \<Rightarrow> int" where
  "ROAChange x = astype_int (fl_less (roa_first x) (roa_last x))"

definition CashFlow :: "pt_inputs \<Rightarrow> int" where
  "CashFlow x = astype_int (fl_less (Num 0) (cash_flow_last x))"

definition CashFlowFromOps :: "pt_inputs \<Rightarrow> int" where
  "CashFlowFromOps x = astype_int (fl_less (roa_last x) (cash_flow_from_ops_last x))"

definition LongTermDebtRatioChange :: "pt_inputs \<Rightarrow> int" where
  "LongTermDebtRatioChange x =
     astype_int (fl_less (long_term_debt_ratio_last x) (long_term_debt_ratio_first x))"

definition CurrentDebtRatioChange :: "pt_inputs \<Rightarrow> int" where
  "CurrentDebtRatioChange x =
     astype_int (fl_less (current_ratio_first x) (current_ratio_last x))"

definition SharesOutstandingChange :: "pt_inputs \<Rightarrow> int" where
  "SharesOutstandingChange x =
     astype_int (fl_le (shares_outstanding_last x) (shares_outstanding_first x))"

definition GrossMarginChange :: "pt_inputs \<Rightarrow> int" where
  "GrossMarginChange x = astype_int (fl_less (gross_margin_first x) (gross_margin_last x))"

definition AssetsTurnoverChange :: "pt_inputs \<Rightarrow> int" where
  "AssetsTurnoverChange x =
     astype_int (fl_less (assets_turnover_first x) (assets_turnover_last x))"

text \<open>
  \<open>initialize\<close>, lines 145-154:
  \<^verbatim>\<open>
    profit = ROA() + ROAChange() + CashFlow() + CashFlowFromOps()
    leverage = LongTermDebtRatioChange() + CurrentDebtRatioChange() + SharesOutstandingChange()
    operating = GrossMarginChange() + AssetsTurnoverChange()
    piotroski = profit + leverage + operating
    ev_ebitda = morningstar.valuation_ratios.ev_to_ebitda.latest > 0
    pipe.set_screen(((piotroski >= 7) | (piotroski <= 3)) & ev_ebitda & market_cap)
  \<close>
\<close>

definition piotroski :: "pt_inputs \<Rightarrow> int" where
  "piotroski x =
     (let profit = ROA x + ROAChange x + CashFlow x + CashFlowFromOps x;
          leverage = LongTermDebtRatioChange x + CurrentDebtRatioChange x
                     + SharesOutstandingChange x;
          operating = GrossMarginChange x + AssetsTurnoverChange x
      in profit + leverage + operating)"

definition ev_ebitda :: "pt_inputs \<Rightarrow> bool" where
  "ev_ebitda x = fl_less (Num 0) (ev_to_ebitda_latest x)"

definition pt_screen :: "pt_inputs \<Rightarrow> bool" where
  "pt_screen x = (((7 \<le> piotroski x \<or> piotroski x \<le> 3) \<and> ev_ebitda x) \<and> market_cap_filter x)"

text \<open>
  The pipeline output: one row per security that passes the screen, with the column
  \<open>piotroski\<close>.
\<close>

type_synonym pt_row = "security \<times> int"

definition pt_pipeline_output :: "pt_inputs list \<Rightarrow> pt_row list" where
  "pt_pipeline_output universe = map (\<lambda>x. (pt_sid x, piotroski x)) (filter pt_screen universe)"

text \<open>
  \<open>sort_values('piotroski', ascending=...)\<close> on the output; the order among equal scores
  is that of a stable sort, and the theorems below do not depend on it.
\<close>

definition pt_sort_values :: "bool \<Rightarrow> pt_row list \<Rightarrow> pt_row list" where
  "pt_sort_values ascending rows =
     (if ascending then sort_by (\<lambda>a b. snd a \<le> snd b) rows
      else sort_by (\<lambda>a b. snd b \<le> snd a) rows)"

record pt_context =
  is_month_end :: bool
  results :: "pt_row list"
  long_stocks :: "pt_row list"
  short_stocks :: "pt_row list"

text \<open>
  \<open>before_trading_start\<close> (lines 169-178); the argument is the universe the pipeline
  is evaluated on.
  \<^verbatim>\<open>
    if context.is_month_end:
        context.results = pipeline_output('piotroski')
        try:
            context.long_stocks = context.results.sort_values('piotroski', ascending=False).head(10)
            context.short_stocks = context.results.sort_values('piotroski', ascending=True).head(10)
  \<close>
\<close>

definition pt_before_trading_start :: "pt_context \<Rightarrow> pt_inputs list \<Rightarrow> pt_context" where
  "pt_before_trading_start context universe =
     (if is_month_end context
      then (let res = pt_pipeline_output universe
            in context\<lparr>results := res,
                       long_stocks := take 10 (pt_sort_values False res),
                       short_stocks := take 10 (pt_sort_values True res)\<rparr>)
      else context)"

text \<open>
  Two sample securities: one that passes all nine checks and one that passes none, both
  with a positive EV/EBITDA and inside the market-cap filter.
\<close>

definition pt_sample :: "security \<Rightarrow> bool \<Rightarrow> pt_inputs" where
  "pt_sample s good =
     \<lparr>pt_sid = s,
      roa_first = Num 1, roa_last = (if good then Num 2 else Num (- 1)),
      cash_flow_last = (if good then Num 5 else Num (- 5)),
      cash_flow_from_ops_last = (if good then Num 5 else Num (- 5)),
      long_term_debt_ratio_first = Num 1,
      long_term_debt_ratio_last = (if good then Num 0 else Num 2),
      current_ratio_first = Num 1, current_ratio_last = (if good then Num 2 else Num 0),
      shares_outstanding_first = Num 1,
      shares_outstanding_last = (if good then Num 1 else Num 2),
      gross_margin_first = Num 1, gross_margin_last = (if good then Num 2 else Num 0),
      assets_turnover_first = Num 1, assets_turnover_last = (if good then Num 2 else Num 0),
      ev_to_ebitda_latest = Num 8, market_cap_filter = True\<rparr>"

section \<open>Trailing twelve months (Developed on Black_Cat_Acquirer_Multiple.py)\<close>

text \<open>
  Addition of floats by IEEE class: NaN is absorbing, opposite infinities add to NaN.
  With exact addition of the finite values, floats form a commutative monoid, which is
  what \<open>.sum()\<close> is read as.
\<close>

instantiation fl :: comm_monoid_add
begin

fun plus_fl :: "fl \<Rightarrow> fl \<Rightarrow> fl" where
  "plus_fl NaN y = NaN"
| "plus_fl x NaN = NaN"
| "plus_fl (Num a) (Num b) = Num (a + b)"
| "plus_fl (Num a) y = y"
| "plus_fl x (Num b) = x"
| "plus_fl PInf PInf = PInf"
| "plus_fl NInf NInf = NInf"
| "plus_fl x y = NaN"

definition zero_fl :: fl where
  "zero_fl = Num 0"

instance
proof (intro_classes, goal_cases)
  case (1 x y z)
  show ?case
    by (cases x; cases y; cases z) simp_all
next
  case (2 x y)
  show ?case
    by (cases x; cases y) simp_all
next
  case (3 x)
  show ?case
    by (cases x) (simp_all add: zero_fl_def)
qed

end

text \<open>
  An as-of date is a \<open>datetime64[ns]\<close>: a signed 64-bit count of nanoseconds, whose
  least value stands for not-a-time (NaT).  Dates are carried as integers and the
  wrap-around of 64-bit addition is written out.
\<close>

definition NaT :: int where
  "NaT = - (2 ^ 63)"

definition wrap64 :: "int \<Rightarrow> int" where
  "wrap64 x = (x + 2 ^ 63) mod 2 ^ 64 - 2 ^ 63"

text \<open>\<open>np.timedelta64(52, 'W')\<close> in nanoseconds, and one day, for writing sample dates.\<close>

definition timedelta64_52W :: int where
  "timedelta64_52W = 52 * 7 * 24 * 60 * 60 * 1000000000"

definition timedelta64_1D :: int where
  "timedelta64_1D = 24 * 60 * 60 * 1000000000"

text \<open>
  \<open>x + timedelta\<close>: NaT stays NaT, any other date is added to in 64 bits without an
  overflow check.  \<open>a > b\<close>: false when either side is NaT.
\<close>

definition datetime64_add :: "int \<Rightarrow> int \<Rightarrow> int" where
  "datetime64_add x delta = (if x = NaT then NaT else wrap64 (x + delta))"

definition datetime64_gt :: "int \<Rightarrow> int \<Rightarrow> bool" where
  "datetime64_gt a b = (a \<noteq> NaT \<and> b \<noteq> NaT \<and> b < a)"

text \<open>
  \<open>d + np.timedelta64(52, 'W') > d[-1]\<close>: the boolean mask of the rows whose date plus
  52 weeks is later than the date of the last row; \<open>d[-1]\<close> raises IndexError on an
  empty column.
\<close>

definition in_window :: "int list \<Rightarrow> py_error + bool list" where
  "in_window d =
     (if d = [] then Inl IndexError
      else Inr (map (\<lambda>x. datetime64_gt (datetime64_add x timedelta64_52W) (last d)) d))"

text \<open>\<open>v[m]\<close> for a boolean mask \<open>m\<close>: the entries where the mask is true.\<close>

definition bool_index :: "'a list \<Rightarrow> bool list \<Rightarrow> py_error + 'a list" where
  "bool_index v m =
     (if length m = length v then Inr (map fst (filter snd (zip v m))) else Inl IndexError)"

text \<open>
  \<open>np.unique(ds, return_index=True)[1]\<close>: for each distinct value of \<open>ds\<close>, in
  ascending order of the values, the index of its first occurrence in \<open>ds\<close>.
\<close>

fun first_index :: "'a list \<Rightarrow> 'a \<Rightarrow> nat" where
  "first_index [] u = 0"
| "first_index (x # xs) u = (if x = u then 0 else Suc (first_index xs u))"

definition np_unique_index :: "int list \<Rightarrow> nat list" where
  "np_unique_index ds = map (first_index ds) (sort (remdups ds))"

text \<open>\<open>v[idx]\<close> for an array of indices.\<close>

definition fancy_index :: "'a list \<Rightarrow> nat list \<Rightarrow> py_error + 'a list" where
  "fancy_index v idx =
     (if list_all (\<lambda>i. i < length v) idx then Inr (map (\<lambda>i. v ! i) idx) else Inl IndexError)"

text \<open>
  The body of the comprehension of lines 86-94, for the columns \<open>v\<close> and \<open>d\<close> of one
  security:
  \<^verbatim>\<open>
    (v[d + np.timedelta64(52, 'W') > d[-1]])[
        np.unique(d[d + np.timedelta64(52, 'W') > d[-1]], return_index=True)[1]
    ].sum()
  \<close>
\<close>

definition ttm_column :: "fl list \<Rightarrow> int list \<Rightarrow> py_error + fl" where
  "ttm_column v d =
     (case in_window d of
        Inl e \<Rightarrow> Inl e
      | Inr m \<Rightarrow>
          (case bool_index v m of
             Inl e \<Rightarrow> Inl e
           | Inr vs \<Rightarrow>
               (case bool_index d m of
                  Inl e \<Rightarrow> Inl e
                | Inr ds \<Rightarrow>
                    (case fancy_index vs (np_unique_index ds) of
                       Inl e \<Rightarrow> Inl e
                     | Inr picked \<Rightarrow> Inr (sum_list picked)))))"

text \<open>\<open>arr.T\<close>: the columns of a two-dimensional array.\<close>

definition T :: "'a list list \<Rightarrow> 'a list list" where
  "T arr = map (\<lambda>c. map (\<lambda>row. row ! c) arr) [0..<shape1 arr]"

text \<open>A list comprehension stops at the first element that raises.\<close>

fun collect :: "(py_error + 'a) list \<Rightarrow> py_error + 'a list" where
  "collect [] = Inr []"
| "collect (r # rs) =
     (case r of
        Inl e \<Rightarrow> Inl e
      | Inr x \<Rightarrow> (case collect rs of Inl e \<Rightarrow> Inl e | Inr xs \<Rightarrow> Inr (x # xs)))"

text \<open>
  \<open>TrailingTwelveMonths.compute\<close> (lines 85-95), for \<open>n\<close> securities: the contents of
  \<open>out.factor\<close> and \<open>out.asof_date\<close>.
  \<^verbatim>\<open>
    out.factor[:] = [ ... for v, d in zip(values.T, dates.T)]
    out.asof_date[:] = dates[-1]
  \<close>
\<close>

definition TrailingTwelveMonths_compute ::
  "nat \<Rightarrow> fl list list \<Rightarrow> int list list \<Rightarrow> py_error + (fl list \<times> int list)" where
  "TrailingTwelveMonths_compute n values dates =
     (case collect (map2 ttm_column (T values) (T dates)) of
        Inl e \<Rightarrow> Inl e
      | Inr totals \<Rightarrow>
          (case assign_all n totals of
             Inl e \<Rightarrow> Inl e
           | Inr factor \<Rightarrow>
               (case last_row dates of
                  Inl e \<Rightarrow> Inl e
                | Inr latest \<Rightarrow>
                    (case assign_all n latest of
                       Inl e \<Rightarrow> Inl e
                     | Inr asof_date \<Rightarrow> Inr (factor, asof_date)))))"

text \<open>
  The trailing-twelve-month aggregate in the words of its specification, for one
  security, with the dates read as integers: of the rows of the window, keep those whose
  as-of date is within 52 weeks of the latest as-of date; keep one row per as-of date,
  the first in window order; sum the values of the rows kept.
\<close>

definition latest_date :: "int list \<Rightarrow> int" where
  "latest_date d = Max (set d)"

fun dedup_first :: "int list \<Rightarrow> (int \<times> fl) list \<Rightarrow> (int \<times> fl) list" where
  "dedup_first seen [] = []"
| "dedup_first seen ((dt, x) # rows) =
     (if dt \<in> set seen then dedup_first seen rows
      else (dt, x) # dedup_first (dt # seen) rows)"

definition ttm_spec :: "fl list \<Rightarrow> int list \<Rightarrow> fl" where
  "ttm_spec v d =
     sum_list (map snd (dedup_first []
       (filter (\<lambda>row. latest_date d < fst row + timedelta64_52W) (zip d v))))"

text \<open>
  The same aggregate with the 52 weeks counted from the as-of date of the last row of
  the window, in the arithmetic of \<open>datetime64\<close>: keep the rows whose as-of date plus
  52 weeks is later than the as-of date of the last row; one row per as-of date, the
  first in window order; sum.
\<close>

definition ttm_last_row_spec :: "fl list \<Rightarrow> int list \<Rightarrow> fl" where
  "ttm_last_row_spec v d =
     sum_list (map snd (dedup_first []
       (filter (\<lambda>row. datetime64_gt (datetime64_add (fst row) timedelta64_52W) (last d))
          (zip d v))))"

section \<open>Theorems\<close>

subsection \<open>C8: the empty selection\<close>

lemma mf_weight_total: "\<exists>w. mf_weight xs = Inr w"
  by (simp add: mf_weight_def py_float_div_def)

lemma vl_long_weight_total: "\<exists>w. vl_long_weight xs = Inr w"
  by (simp add: vl_long_weight_def py_float_div_def)

text \<open>
  C8.  For an empty selection both allocators set the weight to zero, and the value
  strategy then places no buy order; for a selection of any size neither allocator raises
  ZeroDivisionError: the division by the selection size is reached only when the size is
  not zero.
\<close>

theorem C8_empty_selection_weight_zero:
  "mf_weight [] = Inr 0 \<and> vl_long_weight [] = Inr 0 \<and> vl_buy_orders can_trade [] = Inr []
   \<and> mf_weight xs \<noteq> Inl ZeroDivisionError \<and> vl_long_weight ys \<noteq> Inl ZeroDivisionError
   \<and> (\<exists>w. mf_weight xs = Inr w) \<and> (\<exists>w. vl_long_weight ys = Inr w)"
proof -
  have a: "mf_weight [] = Inr 0"
    by (simp add: mf_weight_def MAX_LONG_POSITION_SIZE_def)
  have b: "vl_long_weight [] = Inr 0"
    by (simp add: vl_long_weight_def MAX_LONG_POSITION_SIZE_def)
  have c: "vl_buy_orders can_trade [] = Inr []"
    by (simp add: vl_buy_orders_def b)
  obtain w where w: "mf_weight xs = Inr w"
    using mf_weight_total by blast
  obtain v where v: "vl_long_weight ys = Inr v"
    using vl_long_weight_total by blast
  show ?thesis
    using a b c w v by simp
qed

theorem C8_empty_selection_weight_zero_witness:
  "mf_weight ([]::security list) = Inr 0
   \<and> mf_weight [1::security, 2, 3] = Inr 0.04
   \<and> vl_long_weight [1::security, 2, 3] \<noteq> Inl ZeroDivisionError"
proof -
  note t = C8_empty_selection_weight_zero
    [of "\<lambda>_. True" "[1::security, 2, 3]" "[1::security, 2, 3]"]
  have "mf_weight [1::security, 2, 3] = Inr 0.04"
    by (simp add: mf_weight_def py_float_div_def MAX_GROSS_LEVERAGE_def
        MAX_LONG_POSITION_SIZE_def)
  with t show ?thesis by blast
qed

subsection \<open>C5, C6: the anchor month and the equal weights\<close>

lemma bc_weights_loop_eq:
  "0 < n \<Longrightarrow> bc_weights_loop n ct l w =
     Inr (\<lambda>s. if s \<in> set l \<and> ct s
              then Some (float64_round (float64_round (99 / 100) / real n)) else w s)"
proof (induction l arbitrary: w)
  case Nil
  then show ?case by simp
next
  case (Cons a l)
  then show ?case
    by (auto simp: float64_div_def fun_eq_iff)
qed

lemma bc_rebalance_later:
  assumes "month_to_run c \<noteq> - 1" "0 < NUM_STOCKS_TO_BUY c"
  shows "\<exists>c' ord. bc_rebalance c ct m = Inr (c', ord) \<and> month_to_run c' = month_to_run c
    \<and> NUM_STOCKS_TO_BUY c' = NUM_STOCKS_TO_BUY c \<and> ((ord \<noteq> None) = (m = month_to_run c))"
  using assms by (auto simp: bc_rebalance_def bc_weights_loop_eq)

lemma bc_rebalance_first:
  assumes "month_to_run c = - 1" "0 < NUM_STOCKS_TO_BUY c"
  shows "\<exists>c' w. bc_rebalance c ct m = Inr (c', Some w) \<and> month_to_run c' = m
    \<and> NUM_STOCKS_TO_BUY c' = NUM_STOCKS_TO_BUY c"
  using assms by (auto simp: bc_rebalance_def bc_weights_loop_eq)

lemma bc_run_later:
  assumes "month_to_run c \<noteq> - 1" "0 < NUM_STOCKS_TO_BUY c"
  shows "\<exists>c' ords. bc_run c ds = Inr (c', ords) \<and> month_to_run c' = month_to_run c
    \<and> length ords = length ds
    \<and> (\<forall>i < length ds. (ords ! i \<noteq> None) = (today_month (ds ! i) = month_to_run c))"
  using assms
proof (induction ds arbitrary: c)
  case Nil
  then show ?case by simp
next
  case (Cons d ds)
  let ?c0 = "bc_before_trading_start c (output_index d)"
  have c0: "month_to_run ?c0 \<noteq> - 1" "0 < NUM_STOCKS_TO_BUY ?c0"
    "month_to_run ?c0 = month_to_run c"
    using Cons.prems by (simp_all add: bc_before_trading_start_def)
  obtain c1 ord where r: "bc_rebalance ?c0 (tradable d) (today_month d) = Inr (c1, ord)"
    and m1: "month_to_run c1 = month_to_run c"
    and n1: "NUM_STOCKS_TO_BUY c1 = NUM_STOCKS_TO_BUY ?c0"
    and o1: "(ord \<noteq> None) = (today_month d = month_to_run c)"
    using bc_rebalance_later [OF c0(1) c0(2), of "tradable d" "today_month d"] c0(3)
    by auto
  have "month_to_run c1 \<noteq> - 1" "0 < NUM_STOCKS_TO_BUY c1"
    using m1 n1 c0 Cons.prems by simp_all
  from Cons.IH [OF this] obtain c2 ords where
    run: "bc_run c1 ds = Inr (c2, ords)" and m2: "month_to_run c2 = month_to_run c1"
    and len: "length ords = length ds"
    and all: "\<forall>i < length ds. (ords ! i \<noteq> None) = (today_month (ds ! i) = month_to_run c1)"
    by blast
  have "bc_run c (d # ds) = Inr (c2, ord # ords)"
    using r run by simp
  moreover have "\<forall>i < length (d # ds).
      ((ord # ords) ! i \<noteq> None) = (today_month ((d # ds) ! i) = month_to_run c)"
  proof (intro allI impI)
    fix i assume "i < length (d # ds)"
    then show "((ord # ords) ! i \<noteq> None) = (today_month ((d # ds) ! i) = month_to_run c)"
      using o1 all m1 by (cases i) auto
  qed
  ultimately show ?case
    using m2 m1 len by auto
qed


text \<open>
  C5.  Starting from \<open>initialize\<close>, with calendar months between 1 and 12: the first
  invocation of \<open>rebalance\<close> submits orders and records its month as the anchor; every
  later invocation submits orders exactly when its month equals the anchor, and the
  anchor never changes.
\<close>

theorem C5_anchor_month:
  assumes "\<forall>x \<in> set (d # ds). 1 \<le> today_month x \<and> today_month x \<le> 12"
  shows "\<exists>c' ords. bc_run bc_initialize (d # ds) = Inr (c', ords)
     \<and> month_to_run c' = today_month d \<and> length ords = Suc (length ds)
     \<and> ords ! 0 \<noteq> None
     \<and> (\<forall>i < length ds. (ords ! Suc i \<noteq> None) = (today_month (ds ! i) = today_month d))"
proof -
  let ?c0 = "bc_before_trading_start bc_initialize (output_index d)"
  have c0: "month_to_run ?c0 = - 1" "0 < NUM_STOCKS_TO_BUY ?c0"
    by (simp_all add: bc_before_trading_start_def bc_initialize_def)
  obtain c1 w where r: "bc_rebalance ?c0 (tradable d) (today_month d) = Inr (c1, Some w)"
    and m1: "month_to_run c1 = today_month d"
    and n1: "NUM_STOCKS_TO_BUY c1 = NUM_STOCKS_TO_BUY ?c0"
    using bc_rebalance_first [OF c0, of "tradable d" "today_month d"] by blast
  have "month_to_run c1 \<noteq> - 1" "0 < NUM_STOCKS_TO_BUY c1"
    using m1 n1 c0 assms by auto
  from bc_run_later [OF this, of ds] obtain c2 ords where
    run: "bc_run c1 ds = Inr (c2, ords)" and m2: "month_to_run c2 = month_to_run c1"
    and len: "length ords = length ds"
    and all: "\<forall>i < length ds. (ords ! i \<noteq> None) = (today_month (ds ! i) = month_to_run c1)"
    by blast
  have "bc_run bc_initialize (d # ds) = Inr (c2, Some w # ords)"
    using r run by simp
  then show ?thesis
    using m1 m2 len all by auto
qed

theorem C5_anchor_month_witness:
  "\<exists>c' ords.
     bc_run bc_initialize
       [\<lparr>today_month = 4, output_index = [1, 2], tradable = (\<lambda>_. True)\<rparr>,
        \<lparr>today_month = 5, output_index = [1, 2], tradable = (\<lambda>_. True)\<rparr>,
        \<lparr>today_month = 4, output_index = [2, 3], tradable = (\<lambda>_. True)\<rparr>] = Inr (c', ords)
     \<and> month_to_run c' = 4 \<and> map (\<lambda>x. x \<noteq> None) ords = [True, False, True]"
proof -
  let ?d = "\<lparr>today_month = 4, output_index = [1, 2], tradable = (\<lambda>_. True)\<rparr>"
  let ?ds = "[\<lparr>today_month = 5, output_index = [1, 2], tradable = (\<lambda>_. True)\<rparr>,
        \<lparr>today_month = 4, output_index = [2, 3], tradable = (\<lambda>_. True)\<rparr>]"
  have h: "\<forall>x \<in> set (?d # ?ds). 1 \<le> today_month x \<and> today_month x \<le> 12"
    by simp
  from C5_anchor_month [OF h] obtain c' ords where
    run: "bc_run bc_initialize (?d # ?ds) = Inr (c', ords)"
    and m: "month_to_run c' = today_month ?d" and len: "length ords = Suc (length ?ds)"
    and o0: "ords ! 0 \<noteq> None"
    and all: "\<forall>i < length ?ds. (ords ! Suc i \<noteq> None) = (today_month (?ds ! i) = today_month ?d)"
    by blast
  from len obtain a b c where ords: "ords = [a, b, c]"
    by (cases ords; cases "tl ords"; cases "tl (tl ords)") auto
  have "b = None" using all [rule_format, of 0] ords by simp
  moreover have "c \<noteq> None" using all [rule_format, of 1] ords by simp
  moreover have "a \<noteq> None" using o0 ords by simp
  ultimately have "map (\<lambda>x. x \<noteq> None) ords = [True, False, True]"
    using ords by simp
  with run m show ?thesis by auto
qed

lemma bc_rebalance_submitted:
  assumes "0 < NUM_STOCKS_TO_BUY c" "bc_rebalance c ct m = Inr (c', Some w)"
  shows "w = (\<lambda>s. if s \<in> set (security_list c) \<and> ct s
                  then Some (float64_round
                               (float64_round (99 / 100) / real (NUM_STOCKS_TO_BUY c)))
                  else None)"
  using assms by (auto simp: bc_rebalance_def bc_weights_loop_eq split: if_splits)

lemma float64_round_binade:
  assumes "1 / 2 ^ k \<le> x" and "x < 2 / 2 ^ k"
  shows "float64_round x = of_int (round_half_even (x * 2 ^ (k + 52))) / 2 ^ (k + 52)"
proof -
  have pos: "0 < x"
    using assms(1) by (smt (verit) divide_pos_pos zero_less_power zero_less_numeral)
  have p1: "2 powr (- real k) = 1 / 2 ^ k"
    by (simp add: powr_minus powr_realpow divide_inverse)
  have p2: "2 powr (- real k + 1) = 2 / 2 ^ k"
  proof -
    have "(2::real) powr (- real k + 1) = 2 powr (- real k) * 2 powr 1"
      by (rule powr_add)
    then show ?thesis using p1 by simp
  qed
  have "\<lfloor>log 2 x\<rfloor> = - int k"
  proof -
    have "2 powr (of_int (- int k)) \<le> x" using assms(1) p1 by simp
    moreover have "x < 2 powr (of_int (- int k + 1))" using assms(2) p2 by simp
    ultimately show ?thesis
      using pos by (simp add: floor_log_eq_powr_iff)
  qed
  then have e: "of_int \<lfloor>log 2 \<bar>x\<bar>\<rfloor> - 52 = - real (k + 52)"
    using pos by simp
  have "(2::real) powr (real (k + 52)) = 2 ^ (k + 52)"
    by (rule powr_realpow) simp
  then have u: "2 powr (- real (k + 52)) = 1 / 2 ^ (k + 52)"
    by (simp only: powr_minus inverse_eq_divide)
  show ?thesis
    using pos unfolding float64_round_def e u Let_def by simp
qed

lemma float64_0_99: "float64_round (99 / 100) = 8917127262193582 / 2 ^ 53"
proof -
  have "float64_round (99 / 100)
          = of_int (round_half_even (99 / 100 * 2 ^ (1 + 52))) / 2 ^ (1 + 52)"
    by (rule float64_round_binade) simp_all
  moreover have "round_half_even (99 / 100 * 2 ^ (1 + 52)) = 8917127262193582"
    by (simp add: round_half_even_def Let_def)
  ultimately show ?thesis by simp
qed

lemma float64_0_99_over_25:
  "float64_round (float64_round (99 / 100) / 25) = 5706961447803892 / 2 ^ 57"
proof -
  have "float64_round (8917127262193582 / 2 ^ 53 / 25)
          = of_int (round_half_even (8917127262193582 / 2 ^ 53 / 25 * 2 ^ (5 + 52)))
            / 2 ^ (5 + 52)"
    by (rule float64_round_binade) simp_all
  moreover have "round_half_even (8917127262193582 / 2 ^ 53 / 25 * 2 ^ (5 + 52))
          = 5706961447803892"
    by (simp add: round_half_even_def Let_def)
  ultimately show ?thesis by (simp add: float64_0_99)
qed

text \<open>
  C6 (amended).  With \<open>NUM_STOCKS_TO_BUY = 25\<close>, the submitted target-weight map holds
  exactly the tradable members of the security list, each with the same weight: the
  float64 quotient of 0.99 by 25, which is 5706961447803892 / 2^57
  (0.039599999999999996...), below 0.0396 by less than 1e-17.  The exact sum of the
  weights is that weight times the number of securities in the map: it is below 0.99
  whenever the list has at most 25 entries, and within 1e-15 of 0.99 when the map holds
  25 securities.
\<close>

theorem C6_equal_weights:
  assumes "NUM_STOCKS_TO_BUY context = 25"
    and "bc_rebalance context can_trade m = Inr (context', Some w)"
  shows "dom w = {s \<in> set (security_list context). can_trade s}
     \<and> (\<forall>s \<in> dom w. w s = Some (5706961447803892 / 2 ^ 57))
     \<and> (5706961447803892 / 2 ^ 57 :: real) < 0.0396
     \<and> (0.0396 - 5706961447803892 / 2 ^ 57 :: real) < 1 / 10 ^ 17
     \<and> weights_total w = 5706961447803892 / 2 ^ 57 * real (card (dom w))
     \<and> (card (dom w) = 25 \<longrightarrow>
           weights_total w < 0.99 \<and> 0.99 - weights_total w < 1 / 10 ^ 15)
     \<and> (length (security_list context) \<le> 25 \<longrightarrow> weights_total w < 0.99)"
proof -
  define k :: real where "k = 5706961447803892 / 2 ^ 57"
  have kpos: "0 < k" and k1: "k < 0.0396" and k2: "0.0396 - k < 1 / 10 ^ 17"
    and k3: "25 * k < 0.99" and k4: "0.99 - 25 * k < 1 / 10 ^ 15"
    by (simp_all add: k_def)
  have "float64_round (float64_round (99 / 100) / real (NUM_STOCKS_TO_BUY context)) = k"
    using assms(1) float64_0_99_over_25 by (simp add: k_def)
  moreover have "0 < NUM_STOCKS_TO_BUY context"
    using assms(1) by simp
  ultimately have w: "w = (\<lambda>s. if s \<in> set (security_list context) \<and> can_trade s
                  then Some k else None)"
    using bc_rebalance_submitted [OF _ assms(2)] by presburger
  have d: "dom w = {s \<in> set (security_list context). can_trade s}"
    unfolding w by (auto simp: dom_def split: if_splits)
  have v: "\<forall>s \<in> dom w. w s = Some k"
    unfolding w by (auto simp: dom_def split: if_splits)
  have "weights_total w = sum (\<lambda>s. k) (dom w)"
    unfolding weights_total_def using v by (intro sum.cong) auto
  then have t: "weights_total w = k * real (card (dom w))"
    by simp
  have "card (dom w) \<le> card (set (security_list context))"
    unfolding d by (intro card_mono) auto
  also have "\<dots> \<le> length (security_list context)"
    by (rule card_length)
  finally have c: "card (dom w) \<le> length (security_list context)" .
  have le: "length (security_list context) \<le> 25 \<longrightarrow> weights_total w < 0.99"
  proof
    assume "length (security_list context) \<le> 25"
    then have "real (card (dom w)) \<le> 25" using c by simp
    then have "k * real (card (dom w)) \<le> k * 25"
      using kpos by (intro mult_left_mono) simp_all
    then show "weights_total w < 0.99" using k3 unfolding t by simp
  qed
  have e: "card (dom w) = 25 \<longrightarrow>
           weights_total w < 0.99 \<and> 0.99 - weights_total w < 1 / 10 ^ 15"
    using k3 k4 unfolding t by (simp add: mult.commute)
  show ?thesis
    using d v t le e k1 k2 unfolding k_def by blast
qed

theorem C6_equal_weights_witness:
  "\<exists>c' w. bc_rebalance (bc_before_trading_start bc_initialize [0..<25]) (\<lambda>_. True) 3
            = Inr (c', Some w)
     \<and> card (dom w) = 25 \<and> w 7 = Some (5706961447803892 / 2 ^ 57)
     \<and> weights_total w < 0.99"
proof -
  let ?c = "bc_before_trading_start bc_initialize [0..<25]"
  have n: "NUM_STOCKS_TO_BUY ?c = 25" and m: "month_to_run ?c = - 1"
    and l: "security_list ?c = [0..<25]"
    by (simp_all add: bc_before_trading_start_def bc_initialize_def)
  obtain c' w where r: "bc_rebalance ?c (\<lambda>_. True) 3 = Inr (c', Some w)"
    using bc_rebalance_first [OF m, of "\<lambda>_. True" 3] n by auto
  note t = C6_equal_weights [OF n r]
  have d: "dom w = {0..<25}"
    using t l by auto
  then have c: "card (dom w) = 25" by simp
  have "7 \<in> dom w" using d by simp
  then have "w 7 = Some (5706961447803892 / 2 ^ 57)"
    using t by blast
  moreover have "weights_total w < 0.99"
    using t c by blast
  ultimately show ?thesis
    using r c by blast
qed

text \<open>
  With a single tradable security selected, the submitted weights sum to the one weight
  5706961447803892 / 2^57, not to 0.99.
\<close>

theorem C6_sum_counterexample:
  "map_option weights_total
     (submitted_weights
        (bc_rebalance (bc_before_trading_start bc_initialize [1]) (\<lambda>_. True) 3))
   = Some (5706961447803892 / 2 ^ 57) \<and> (5706961447803892 / 2 ^ 57 :: real) \<noteq> 0.99"
proof -
  have "bc_weights_loop 25 (\<lambda>_. True) [1] Map.empty
          = Inr [1 \<mapsto> 5706961447803892 / 2 ^ 57]"
    by (simp only: bc_weights_loop.simps float64_div_def float64_0_99_over_25
        of_nat_numeral sum.case if_True)
       simp
  then show ?thesis
    by (simp add: bc_rebalance_def bc_before_trading_start_def bc_initialize_def
        submitted_weights_def weights_total_def)
qed

subsection \<open>C2, C10: what nanfill fills, and where\<close>

lemma upt_5: "[0..<5] = [0, 1, 2, 3, 4]"
  by code_simp

lemmas nanfill_defs = nanfill_def np_isnan_def np_where_arange_def
  maximum_accumulate_axis1_def assign_masked_def shape1_def isnan_def

lemma length_nanfill: "length (nanfill a) = length a"
  by (simp add: nanfill_def assign_masked_def Let_def)

lemma nanfill_single_row:
  "\<exists>row'. nanfill [row] = [row'] \<and> length row' = length row"
  by (simp add: nanfill_def assign_masked_def shape1_def Let_def)

text \<open>
  C2 (the code departs from the claim).  On a window of five days and one security whose
  column is [NaN, 2, NaN, NaN, 5], \<open>nanfill\<close> changes nothing: each row has a single
  entry and the fill runs within a row.  On a window of one day and two securities
  [3, NaN] the second security receives the first security's value.  The fill of the
  claim's example is obtained only when the five values lie in one row, that is, belong
  to five securities on one day.
\<close>

theorem C2_nanfill_fills_across_securities:
  "nanfill [[NaN], [Num 2], [NaN], [NaN], [Num 5]] = [[NaN], [Num 2], [NaN], [NaN], [Num 5]]
   \<and> nanfill [[Num 3, NaN]] = [[Num 3, Num 3]]
   \<and> nanfill [[NaN, Num 2, NaN, NaN, Num 5]] = [[NaN, Num 2, Num 2, Num 2, Num 5]]"
proof -
  have a: "nanfill [[NaN], [Num 2], [NaN], [NaN], [Num 5]]
           = [[NaN], [Num 2], [NaN], [NaN], [Num 5]]"
    by (simp add: nanfill_defs upt_5)
  have b: "nanfill [[Num 3, NaN]] = [[Num 3, Num 3]]"
    by (simp add: nanfill_defs upt_rec)
  have c: "nanfill [[NaN, Num 2, NaN, NaN, Num 5]] = [[NaN, Num 2, Num 2, Num 2, Num 5]]"
    by (simp add: nanfill_defs upt_5)
  show ?thesis using a b c by simp
qed

text \<open>
  C10.  Called with a reference to a two-dimensional array, \<open>nanfill\<close> returns that same
  reference, the array stored there is now the filled one, and no other array of the
  store changes.  Hence whenever \<open>Price_to_Book.compute\<close> returns, the input window
  \<open>pb\<close> holds the filled array; for a one-row window and an \<open>out\<close> of the same
  length it does return, with \<open>out\<close> a copy of the filled row.
\<close>

theorem C10_nanfill_in_place:
  assumes "h pb = A2 a"
  shows "(\<exists>h'. nanfill_ref h pb = Inr (h', pb) \<and> h' pb = A2 (nanfill a)
            \<and> (\<forall>r. r \<noteq> pb \<longrightarrow> h' r = h r))
     \<and> (\<forall>h'. Price_to_Book_compute h out pb = Inr h' \<longrightarrow> h' pb = A2 (nanfill a))
     \<and> (a = [row] \<and> h out = A1 old \<and> length old = length row \<longrightarrow>
          (\<exists>h'. Price_to_Book_compute h out pb = Inr h' \<and> h' pb = A2 (nanfill a)
             \<and> h' out = A1 (hd (nanfill a))
             \<and> (\<forall>r. r \<noteq> pb \<and> r \<noteq> out \<longrightarrow> h' r = h r)))"
proof -
  let ?h1 = "h(pb := A2 (nanfill a))"
  have r: "nanfill_ref h pb = Inr (?h1, pb)"
    using assms by (simp add: nanfill_ref_def)
  have one: "\<exists>h'. nanfill_ref h pb = Inr (h', pb) \<and> h' pb = A2 (nanfill a)
            \<and> (\<forall>r. r \<noteq> pb \<longrightarrow> h' r = h r)"
    using r by simp
  have two: "\<forall>h'. Price_to_Book_compute h out pb = Inr h' \<longrightarrow> h' pb = A2 (nanfill a)"
  proof (intro allI impI)
    fix h' assume c: "Price_to_Book_compute h out pb = Inr h'"
    then have s: "assign_out ?h1 out pb = Inr h'"
      using r by (simp add: Price_to_Book_compute_def)
    then have "out \<noteq> pb"
      by (auto simp: assign_out_def split: ndarray.splits list.splits if_splits)
    then show "h' pb = A2 (nanfill a)"
      using s by (auto simp: assign_out_def split: ndarray.splits list.splits if_splits)
  qed
  have three: "a = [row] \<and> h out = A1 old \<and> length old = length row \<longrightarrow>
          (\<exists>h'. Price_to_Book_compute h out pb = Inr h' \<and> h' pb = A2 (nanfill a)
             \<and> h' out = A1 (hd (nanfill a))
             \<and> (\<forall>r. r \<noteq> pb \<and> r \<noteq> out \<longrightarrow> h' r = h r))"
  proof
    assume p: "a = [row] \<and> h out = A1 old \<and> length old = length row"
    then have ne: "out \<noteq> pb" using assms by auto
    obtain row' where row': "nanfill [row] = [row']" "length row' = length row"
      using nanfill_single_row by blast
    have "assign_out ?h1 out pb = Inr (?h1(out := A1 row'))"
      using p ne row' by (simp add: assign_out_def)
    then have "Price_to_Book_compute h out pb = Inr (?h1(out := A1 row'))"
      using r by (simp add: Price_to_Book_compute_def)
    then show "\<exists>h'. Price_to_Book_compute h out pb = Inr h' \<and> h' pb = A2 (nanfill a)
             \<and> h' out = A1 (hd (nanfill a))
             \<and> (\<forall>r. r \<noteq> pb \<and> r \<noteq> out \<longrightarrow> h' r = h r)"
      using p ne row' by simp
  qed
  show ?thesis using one two three by blast
qed

text \<open>
  A store with the window [[3, NaN]] at reference 0 and \<open>out\<close> at reference 1.
\<close>

theorem C10_nanfill_in_place_witness:
  "\<exists>h'. Price_to_Book_compute ((\<lambda>_. A1 [])(0 := A2 [[Num 3, NaN]], 1 := A1 [NaN, NaN])) 1 0
            = Inr h'
     \<and> h' 0 = A2 [[Num 3, Num 3]] \<and> h' 1 = A1 [Num 3, Num 3]"
proof -
  let ?h = "(\<lambda>_. A1 [])(0 := A2 [[Num 3, NaN]], 1 := A1 [NaN, NaN]) :: store"
  have h: "?h 0 = A2 [[Num 3, NaN]]" by simp
  have f: "nanfill [[Num 3, NaN]] = [[Num 3, Num 3]]"
    by (simp add: nanfill_defs upt_rec)
  have p: "[[Num 3, NaN]] = [[Num 3, NaN]] \<and> ?h 1 = A1 [NaN, NaN]
           \<and> length [NaN, NaN] = length [Num 3, NaN]"
    by simp
  from C10_nanfill_in_place
    [where h = "?h" and pb = 0 and a = "[[Num 3, NaN]]" and out = 1
       and row = "[Num 3, NaN]" and old = "[NaN, NaN]"] h p
  obtain h' where "Price_to_Book_compute ?h 1 0 = Inr h'"
    "h' 0 = A2 (nanfill [[Num 3, NaN]])" "h' 1 = A1 (hd (nanfill [[Num 3, NaN]]))"
    by blast
  then show ?thesis using f by auto
qed

subsection \<open>C9: liquidation of positions that left the selection\<close>

lemma vl_sell_loop_eq:
  "vl_sell_loop can_trade long_list positions =
     map (\<lambda>stock. Order_target stock 0)
       (filter (\<lambda>stock. stock \<notin> set long_list \<and> can_trade stock) positions)"
  by (induction positions) auto

lemma vl_rebalance_skips_untradable:
  assumes "vl_rebalance can_trade long_list positions = Inr orders"
    and "\<not> can_trade stock"
  shows "Order_target stock n \<notin> set orders \<and> Order_target_percent stock w \<notin> set orders"
  using assms
  by (auto simp: vl_rebalance_def vl_buy_orders_def vl_sell_loop_eq
      split: sum.splits)

lemma vl_rebalance_liquidates_tradable:
  assumes "vl_rebalance can_trade long_list positions = Inr orders"
    and "stock \<in> set positions" "stock \<notin> set long_list" "can_trade stock"
  shows "Order_target stock 0 \<in> set orders"
  using assms
  by (auto simp: vl_rebalance_def vl_buy_orders_def vl_sell_loop_eq
      split: sum.splits)

lemma pt_trade_loop_eq:
  "pt_trade_loop longs shorts positions =
     map (\<lambda>stock. Order_target_percent stock 0)
       (filter (\<lambda>stock. stock \<notin> set longs \<and> stock \<notin> set shorts) positions)"
  by (induction positions) auto

text \<open>
  C9 (the code departs from the claim).  With one held security, absent from both
  lists and reported as not tradable, \<open>trade\<close> of the long/short strategy still places
  \<open>order_target_percent(stock, 0)\<close>: it never consults \<open>data.can_trade\<close>.  The value
  strategy's \<open>rebalance\<close> places no order on the same input, as the claim says.
\<close>

theorem C9_trade_orders_untradable_position:
  "fst (pt_trade [] [] (\<lambda>stock. False) [7]) = [Order_target_percent 7 0]
   \<and> vl_rebalance (\<lambda>stock. False) [] [7] = Inr []"
  by (simp add: pt_trade_def vl_rebalance_def vl_buy_orders_def vl_long_weight_def
      MAX_LONG_POSITION_SIZE_def)

subsection \<open>C4: the sector exclusion of the Magic Formula universe\<close>

lemma not_Finan_and_Ulti_True: "not_Finan_and_Ulti"
  by (simp add: not_Finan_and_Ulti_def py_ne_def)

lemma mf_universe_ignores_sector_code:
  "mf_universe s = (in_QTradableStocksUS s \<and> sector_code s \<noteq> None \<and> medium_cap s)"
  by (auto simp: mf_universe_def not_Finan_and_Ulti_True)

text \<open>
  C4 (the code departs from the claim).  A tradable security of sector 103 (financial
  services) and one of sector 207 (utilities), each with a market capitalisation of two
  billion, are members of the universe that is the screen and the mask of the ranks.
\<close>

theorem C4_financial_and_utility_pass_universe:
  "mf_universe \<lparr>sid = 1, in_QTradableStocksUS = True, sector_code = Some 103,
                 market_cap = Num 2000000000\<rparr>
   \<and> mf_universe \<lparr>sid = 2, in_QTradableStocksUS = True, sector_code = Some 207,
                   market_cap = Num 2000000000\<rparr>"
  by (simp add: mf_universe_def not_Finan_and_Ulti_def py_ne_def medium_cap_def)

subsection \<open>C3: NaN and zero denominators in a ratio factor\<close>

lemma fl_div_nan: "isnan x \<or> isnan y \<Longrightarrow> isnan (fl_div x y)"
  by (cases x; cases y) (auto simp: isnan_def)

lemma fl_div_zero_zero: "isnan (fl_div (Num 0) (Num 0))"
  by (simp add: isnan_def)

lemma fl_div_by_zero: "a \<noteq> 0 \<Longrightarrow> fl_div (Num a) (Num 0) = (if 0 < a then PInf else NInf)"
  by simp

lemma Earnings_Yield_compute_eq:
  assumes "ebit \<noteq> []" "ev \<noteq> []" "length (last ebit) = n" "length (last ev) = n"
  shows "Earnings_Yield_compute n ebit ev = Inr (map2 fl_div (last ebit) (last ev))"
  using assms
  by (simp add: Earnings_Yield_compute_def last_row_def np_divide_def assign_all_def)

lemma mf_buy_list_notna: "r \<in> set (mf_buy_list output) \<Longrightarrow> mf_notna r"
  by (simp add: mf_buy_list_def)

text \<open>
  C3 (amended).  On windows of the platform's shape (at least one row, one entry per
  security) the earnings-yield factor never raises and returns, for every security, the
  float quotient of the latest EBIT by the latest enterprise value.  That output is NaN
  when the numerator or the denominator is NaN and when both are zero; for a zero
  denominator and a nonzero numerator it is an infinity, not NaN.  A row whose
  earnings-yield column is NaN is never in the Magic Formula buy list.
\<close>

theorem C3_ratio_nan_propagation:
  assumes "ebit \<noteq> []" "ev \<noteq> []" "length (last ebit) = n" "length (last ev) = n"
  shows "\<exists>out. Earnings_Yield_compute n ebit ev = Inr out \<and> length out = n
     \<and> (\<forall>i < n. out ! i = fl_div (last ebit ! i) (last ev ! i)
          \<and> (isnan (last ebit ! i) \<or> isnan (last ev ! i)
              \<or> (last ebit ! i = Num 0 \<and> last ev ! i = Num 0) \<longrightarrow> isnan (out ! i))
          \<and> (\<forall>a. last ebit ! i = Num a \<and> a \<noteq> 0 \<and> last ev ! i = Num 0 \<longrightarrow>
                out ! i = (if 0 < a then PInf else NInf) \<and> \<not> isnan (out ! i)))
     \<and> (\<forall>r \<in> set (mf_buy_list output). \<not> isnan (earnings_yield r))"
proof -
  let ?out = "map2 fl_div (last ebit) (last ev)"
  have c: "Earnings_Yield_compute n ebit ev = Inr ?out"
    using assms by (rule Earnings_Yield_compute_eq)
  have l: "length ?out = n"
    using assms by simp
  have nth: "?out ! i = fl_div (last ebit ! i) (last ev ! i)" if "i < n" for i
    using that assms by simp
  have p: "(isnan (last ebit ! i) \<or> isnan (last ev ! i)
              \<or> (last ebit ! i = Num 0 \<and> last ev ! i = Num 0) \<longrightarrow> isnan (?out ! i))
          \<and> (\<forall>a. last ebit ! i = Num a \<and> a \<noteq> 0 \<and> last ev ! i = Num 0 \<longrightarrow>
                ?out ! i = (if 0 < a then PInf else NInf) \<and> \<not> isnan (?out ! i))"
    if "i < n" for i
    unfolding nth [OF that]
    using fl_div_nan [of "last ebit ! i" "last ev ! i"]
    by (auto simp: isnan_def)
  have b: "\<forall>r \<in> set (mf_buy_list output). \<not> isnan (earnings_yield r)"
    using mf_buy_list_notna by (auto simp: mf_notna_def)
  show ?thesis
    using c l nth p b by blast
qed

text \<open>
  Three securities (5/0, NaN/2, 0/0) and a pipeline output with one NaN row.
\<close>

theorem C3_ratio_nan_propagation_witness:
  "\<exists>out. Earnings_Yield_compute 3 [[Num 5, NaN, Num 0]] [[Num 0, Num 2, Num 0]] = Inr out
     \<and> out ! 0 = PInf \<and> isnan (out ! 1) \<and> isnan (out ! 2)
     \<and> map row_sid (mf_buy_list
          [\<lparr>row_sid = 1, earnings_yield = NaN, Earnings_yield_rank = NaN, roic = Num 2,
            Roic_rank = Num 1, MagicFormula_rank = NaN\<rparr>,
           \<lparr>row_sid = 2, earnings_yield = Num 3, Earnings_yield_rank = Num 1, roic = Num 1,
            Roic_rank = Num 2, MagicFormula_rank = Num 3\<rparr>]) = [2]
     \<and> \<not> isnan (earnings_yield
          \<lparr>row_sid = 2, earnings_yield = Num 3, Earnings_yield_rank = Num 1, roic = Num 1,
            Roic_rank = Num 2, MagicFormula_rank = Num 3\<rparr>)"
proof -
  let ?ebit = "[[Num 5, NaN, Num 0]]" and ?ev = "[[Num 0, Num 2, Num 0]]"
  let ?r1 = "\<lparr>row_sid = 1, earnings_yield = NaN, Earnings_yield_rank = NaN, roic = Num 2,
            Roic_rank = Num 1, MagicFormula_rank = NaN\<rparr>"
  let ?r2 = "\<lparr>row_sid = 2, earnings_yield = Num 3, Earnings_yield_rank = Num 1, roic = Num 1,
            Roic_rank = Num 2, MagicFormula_rank = Num 3\<rparr>"
  have h: "?ebit \<noteq> []" "?ev \<noteq> []" "length (last ?ebit) = 3" "length (last ?ev) = 3"
    by simp_all
  have bl: "mf_buy_list [?r1, ?r2] = [?r2]"
    by (simp add: mf_buy_list_def sort_values_fl_def sort_by_def mf_notna_def isnan_def)
  from C3_ratio_nan_propagation [OF h, of "[?r1, ?r2]"] obtain out where
    c: "Earnings_Yield_compute 3 ?ebit ?ev = Inr out"
    and a: "\<forall>i < 3. out ! i = fl_div (last ?ebit ! i) (last ?ev ! i)
          \<and> (isnan (last ?ebit ! i) \<or> isnan (last ?ev ! i)
              \<or> (last ?ebit ! i = Num 0 \<and> last ?ev ! i = Num 0) \<longrightarrow> isnan (out ! i))
          \<and> (\<forall>a. last ?ebit ! i = Num a \<and> a \<noteq> 0 \<and> last ?ev ! i = Num 0 \<longrightarrow>
                out ! i = (if 0 < a then PInf else NInf) \<and> \<not> isnan (out ! i))"
    and b: "\<forall>r \<in> set (mf_buy_list [?r1, ?r2]). \<not> isnan (earnings_yield r)"
    by blast
  have "out ! 0 = PInf" using a [rule_format, of 0] by simp
  moreover have "isnan (out ! 1)" using a [rule_format, of 1] by (simp add: isnan_def)
  moreover have "isnan (out ! 2)" using a [rule_format, of 2] by (simp add: isnan_def)
  moreover have "\<not> isnan (earnings_yield ?r2)" using b bl by simp
  moreover have "map row_sid (mf_buy_list [?r1, ?r2]) = [2]" using bl by simp
  ultimately show ?thesis using c
    by - (rule exI [of _ out], intro conjI, assumption+)
qed

text \<open>
  EBIT 5 over enterprise value 0: the output is plus infinity, which is not NaN.
\<close>

theorem C3_zero_denominator_counterexample:
  "Earnings_Yield_compute 1 [[Num 5]] [[Num 0]] = Inr [PInf] \<and> \<not> isnan PInf"
  by (simp add: Earnings_Yield_compute_def last_row_def np_divide_def assign_all_def
      isnan_def)

subsection \<open>C7: the score, the screen and the two lists\<close>

lemma astype_int_range: "0 \<le> astype_int b \<and> astype_int b \<le> 1"
  by (simp add: astype_int_def)

lemma piotroski_range: "0 \<le> piotroski x \<and> piotroski x \<le> 9"
proof -
  have "0 \<le> ROA x \<and> ROA x \<le> 1" "0 \<le> ROAChange x \<and> ROAChange x \<le> 1"
    "0 \<le> CashFlow x \<and> CashFlow x \<le> 1" "0 \<le> CashFlowFromOps x \<and> CashFlowFromOps x \<le> 1"
    "0 \<le> LongTermDebtRatioChange x \<and> LongTermDebtRatioChange x \<le> 1"
    "0 \<le> CurrentDebtRatioChange x \<and> CurrentDebtRatioChange x \<le> 1"
    "0 \<le> SharesOutstandingChange x \<and> SharesOutstandingChange x \<le> 1"
    "0 \<le> GrossMarginChange x \<and> GrossMarginChange x \<le> 1"
    "0 \<le> AssetsTurnoverChange x \<and> AssetsTurnoverChange x \<le> 1"
    unfolding ROA_def ROAChange_def CashFlow_def CashFlowFromOps_def
      LongTermDebtRatioChange_def CurrentDebtRatioChange_def SharesOutstandingChange_def
      GrossMarginChange_def AssetsTurnoverChange_def
    by (rule astype_int_range)+
  then show ?thesis
    unfolding piotroski_def Let_def by linarith
qed

lemma mset_insort_by: "mset (insort_by le x xs) = add_mset x (mset xs)"
  by (induction xs) auto

lemma mset_sort_by: "mset (sort_by le xs) = mset xs"
  by (induction xs) (auto simp: sort_by_def mset_insort_by)

lemma set_insort_by: "set (insort_by le x xs) = insert x (set xs)"
  by (induction xs) auto

lemma sorted_wrt_insort_by:
  assumes "\<And>a b. le a b \<or> le b a" and "\<And>a b c. le a b \<Longrightarrow> le b c \<Longrightarrow> le a c"
    and "sorted_wrt le xs"
  shows "sorted_wrt le (insort_by le x xs)"
  using assms(3)
proof (induction xs)
  case Nil
  then show ?case by simp
next
  case (Cons y ys)
  show ?case
  proof (cases "le x y")
    case True
    then show ?thesis using Cons.prems assms(2) by auto
  next
    case False
    then have "le y x" using assms(1) by blast
    then show ?thesis using Cons False by (auto simp: set_insort_by)
  qed
qed

lemma sorted_wrt_sort_by:
  assumes "\<And>a b. le a b \<or> le b a" and "\<And>a b c. le a b \<Longrightarrow> le b c \<Longrightarrow> le a c"
  shows "sorted_wrt le (sort_by le xs)"
proof (induction xs)
  case Nil
  then show ?case by (simp add: sort_by_def)
next
  case (Cons x xs)
  have "sort_by le (x # xs) = insort_by le x (sort_by le xs)"
    by (simp add: sort_by_def)
  then show ?case
    using sorted_wrt_insort_by [OF assms Cons.IH] by simp
qed

lemma filter_sorted_is_prefix:
  assumes "sorted_wrt le xs" and "\<And>a b. le a b \<Longrightarrow> P b \<Longrightarrow> P a"
  shows "filter P xs = takeWhile P xs"
  using assms(1)
proof (induction xs)
  case Nil
  then show ?case by simp
next
  case (Cons x xs)
  show ?case
  proof (cases "P x")
    case True
    then show ?thesis using Cons by simp
  next
    case False
    have "\<not> P y" if "y \<in> set xs" for y
      using that Cons.prems assms(2) False by auto
    then have "filter P xs = []" by (simp add: filter_empty_conv)
    then show ?thesis using False by simp
  qed
qed

lemma take_within_takeWhile:
  "n \<le> length (takeWhile P xs) \<Longrightarrow> x \<in> set (take n xs) \<Longrightarrow> P x"
proof (induction xs arbitrary: n)
  case Nil
  then show ?case by simp
next
  case (Cons y ys)
  then show ?case
    by (cases n) (auto split: if_splits)
qed

lemma head_of_sorted_satisfies:
  assumes "\<And>a b. le a b \<or> le b a" and "\<And>a b c. le a b \<Longrightarrow> le b c \<Longrightarrow> le a c"
    and "\<And>a b. le a b \<Longrightarrow> P b \<Longrightarrow> P a"
    and "n \<le> length (filter P xs)" and "x \<in> set (take n (sort_by le xs))"
  shows "P x"
proof -
  have "length (filter P (sort_by le xs)) = size (filter_mset P (mset (sort_by le xs)))"
    by (metis mset_filter size_mset)
  also have "\<dots> = length (filter P xs)"
    by (metis mset_sort_by mset_filter size_mset)
  finally have "n \<le> length (filter P (sort_by le xs))"
    using assms(4) by simp
  moreover have "sorted_wrt le (sort_by le xs)"
    by (rule sorted_wrt_sort_by) (use assms(1,2) in blast)+
  then have "filter P (sort_by le xs) = takeWhile P (sort_by le xs)"
    by (rule filter_sorted_is_prefix) (use assms(3) in blast)
  ultimately have "n \<le> length (takeWhile P (sort_by le xs))"
    by simp
  then show ?thesis
    using take_within_takeWhile assms(5) by metis
qed


lemma set_sort_by: "set (sort_by le xs) = set xs"
  using mset_sort_by [of le xs] by (metis set_mset_mset)

lemma length_sort_by: "length (sort_by le xs) = length xs"
  using mset_sort_by [of le xs] by (metis size_mset)

lemma pt_long_all_high:
  assumes "10 \<le> length (filter (\<lambda>r. 7 \<le> snd r) res)"
    and "r \<in> set (take 10 (pt_sort_values False res))"
  shows "7 \<le> snd r"
proof -
  have "r \<in> set (take 10 (sort_by (\<lambda>a b. snd b \<le> snd a) res))"
    using assms(2) by (simp add: pt_sort_values_def)
  with assms(1) show ?thesis
    by (rule head_of_sorted_satisfies [where le = "\<lambda>a b. snd b \<le> snd a"
          and P = "\<lambda>r. (7::int) \<le> snd r", rotated 3]) auto
qed

lemma pt_short_all_low:
  assumes "10 \<le> length (filter (\<lambda>r. snd r \<le> 3) res)"
    and "r \<in> set (take 10 (pt_sort_values True res))"
  shows "snd r \<le> 3"
proof -
  have "r \<in> set (take 10 (sort_by (\<lambda>a b. snd a \<le> snd b) res))"
    using assms(2) by (simp add: pt_sort_values_def)
  with assms(1) show ?thesis
    by (rule head_of_sorted_satisfies [where le = "\<lambda>a b. snd a \<le> snd b"
          and P = "\<lambda>r. snd r \<le> (3::int)", rotated 3]) auto
qed

lemma set_pt_sort_values: "set (pt_sort_values asc res) = set res"
  by (simp add: pt_sort_values_def set_sort_by)

lemma length_pt_sort_values: "length (pt_sort_values asc res) = length res"
  by (simp add: pt_sort_values_def length_sort_by)

lemma pt_pipeline_output_distinct:
  "distinct (map pt_sid universe) \<Longrightarrow> distinct (map fst (pt_pipeline_output universe))"
  by (simp add: pt_pipeline_output_def comp_def distinct_map_filter)

text \<open>
  C7 (amended).  The composite score lies between 0 and 9.  On a month-end day the
  pipeline output holds exactly the securities with score at least 7 or at most 3 (that
  also pass the EV/EBITDA and market-cap filters): inclusion is decided by the screen.
  The long list is the first ten rows (all rows, when there are fewer than ten) of a
  rearrangement of the output that is sorted by descending score, and the short list the
  first ten rows of one sorted by ascending score; selection applies no further
  threshold.  When the output holds at least ten securities with score at
  least 7 and at least ten with score at most 3, every long row has score at least 7,
  every short row has score at most 3, and the two lists share no security.
\<close>

theorem C7_long_short_selection:
  assumes "is_month_end context" and "distinct (map pt_sid universe)"
  shows "(0 \<le> piotroski x \<and> piotroski x \<le> 9)
     \<and> results (pt_before_trading_start context universe) =
         map (\<lambda>x. (pt_sid x, piotroski x))
           (filter (\<lambda>x. (7 \<le> piotroski x \<or> piotroski x \<le> 3) \<and> ev_ebitda x
                        \<and> market_cap_filter x) universe)
     \<and> set (long_stocks (pt_before_trading_start context universe))
          \<subseteq> set (results (pt_before_trading_start context universe))
     \<and> set (short_stocks (pt_before_trading_start context universe))
          \<subseteq> set (results (pt_before_trading_start context universe))
     \<and> length (long_stocks (pt_before_trading_start context universe))
          = min 10 (length (results (pt_before_trading_start context universe)))
     \<and> length (short_stocks (pt_before_trading_start context universe))
          = min 10 (length (results (pt_before_trading_start context universe)))
     \<and> (\<exists>descending.
           mset descending = mset (results (pt_before_trading_start context universe))
           \<and> sorted_wrt (\<lambda>a b. snd b \<le> snd a) descending
           \<and> long_stocks (pt_before_trading_start context universe) = take 10 descending)
     \<and> (\<exists>ascending.
           mset ascending = mset (results (pt_before_trading_start context universe))
           \<and> sorted_wrt (\<lambda>a b. snd a \<le> snd b) ascending
           \<and> short_stocks (pt_before_trading_start context universe) = take 10 ascending)
     \<and> (10 \<le> length (filter (\<lambda>r. 7 \<le> snd r)
                        (results (pt_before_trading_start context universe)))
        \<and> 10 \<le> length (filter (\<lambda>r. snd r \<le> 3)
                        (results (pt_before_trading_start context universe)))
        \<longrightarrow> fst ` set (long_stocks (pt_before_trading_start context universe))
              \<inter> fst ` set (short_stocks (pt_before_trading_start context universe)) = {}
            \<and> (\<forall>r \<in> set (long_stocks (pt_before_trading_start context universe)). 7 \<le> snd r)
            \<and> (\<forall>r \<in> set (short_stocks (pt_before_trading_start context universe)).
                  snd r \<le> 3))"
proof -
  define res where "res = pt_pipeline_output universe"
  define c where "c = pt_before_trading_start context universe"
  have r: "results c = res"
    and l: "long_stocks c = take 10 (pt_sort_values False res)"
    and s: "short_stocks c = take 10 (pt_sort_values True res)"
    using assms(1) by (simp_all add: c_def res_def pt_before_trading_start_def Let_def)
  have range: "0 \<le> piotroski x \<and> piotroski x \<le> 9"
    by (rule piotroski_range)
  have out: "results c = map (\<lambda>x. (pt_sid x, piotroski x))
           (filter (\<lambda>x. (7 \<le> piotroski x \<or> piotroski x \<le> 3) \<and> ev_ebitda x
                        \<and> market_cap_filter x) universe)"
    unfolding r res_def pt_pipeline_output_def
    by (rule arg_cong [where f = "map (\<lambda>x. (pt_sid x, piotroski x))"])
       (rule filter_cong, auto simp: pt_screen_def)
  have subl: "set (long_stocks c) \<subseteq> set (results c)"
    unfolding l r using set_take_subset [of 10 "pt_sort_values False res"]
    by (simp add: set_pt_sort_values)
  have subs: "set (short_stocks c) \<subseteq> set (results c)"
    unfolding s r using set_take_subset [of 10 "pt_sort_values True res"]
    by (simp add: set_pt_sort_values)
  have lenl: "length (long_stocks c) = min 10 (length (results c))"
    unfolding l r by (simp add: length_pt_sort_values min.commute)
  have lens: "length (short_stocks c) = min 10 (length (results c))"
    unfolding s r by (simp add: length_pt_sort_values min.commute)
  have srtl: "\<exists>descending. mset descending = mset (results c)
           \<and> sorted_wrt (\<lambda>a b. snd b \<le> snd a) descending
           \<and> long_stocks c = take 10 descending"
  proof (intro exI [of _ "pt_sort_values False res"] conjI)
    show "mset (pt_sort_values False res) = mset (results c)"
      unfolding r by (simp add: pt_sort_values_def mset_sort_by)
    show "sorted_wrt (\<lambda>a b. snd b \<le> snd a) (pt_sort_values False res)"
      unfolding pt_sort_values_def if_False
      by (rule sorted_wrt_sort_by) auto
    show "long_stocks c = take 10 (pt_sort_values False res)"
      by (rule l)
  qed
  have srts: "\<exists>ascending. mset ascending = mset (results c)
           \<and> sorted_wrt (\<lambda>a b. snd a \<le> snd b) ascending
           \<and> short_stocks c = take 10 ascending"
  proof (intro exI [of _ "pt_sort_values True res"] conjI)
    show "mset (pt_sort_values True res) = mset (results c)"
      unfolding r by (simp add: pt_sort_values_def mset_sort_by)
    show "sorted_wrt (\<lambda>a b. snd a \<le> snd b) (pt_sort_values True res)"
      unfolding pt_sort_values_def if_True
      by (rule sorted_wrt_sort_by) auto
    show "short_stocks c = take 10 (pt_sort_values True res)"
      by (rule s)
  qed
  have dis: "10 \<le> length (filter (\<lambda>r. 7 \<le> snd r) (results c))
        \<and> 10 \<le> length (filter (\<lambda>r. snd r \<le> 3) (results c))
        \<longrightarrow> fst ` set (long_stocks c) \<inter> fst ` set (short_stocks c) = {}
            \<and> (\<forall>r \<in> set (long_stocks c). 7 \<le> snd r)
            \<and> (\<forall>r \<in> set (short_stocks c). snd r \<le> 3)"
  proof
    assume h: "10 \<le> length (filter (\<lambda>r. 7 \<le> snd r) (results c))
        \<and> 10 \<le> length (filter (\<lambda>r. snd r \<le> 3) (results c))"
    have hi: "7 \<le> snd a" if "a \<in> set (long_stocks c)" for a
      using pt_long_all_high [of res a] h that unfolding l r by blast
    have lo: "snd a \<le> 3" if "a \<in> set (short_stocks c)" for a
      using pt_short_all_low [of res a] h that unfolding s r by blast
    have d: "distinct (map fst (results c))"
      unfolding r res_def using assms(2) by (rule pt_pipeline_output_distinct)
    have "fst ` set (long_stocks c) \<inter> fst ` set (short_stocks c) = {}"
    proof (rule ccontr)
      assume "fst ` set (long_stocks c) \<inter> fst ` set (short_stocks c) \<noteq> {}"
      then obtain k a b where a: "(k, a) \<in> set (long_stocks c)"
        and b: "(k, b) \<in> set (short_stocks c)"
        by force
      have "(k, a) \<in> set (results c)" "(k, b) \<in> set (results c)"
        using a b subl subs by auto
      then have "a = b"
        using d by (rule eq_key_imp_eq_value [rotated])
      moreover have "7 \<le> a" using hi [OF a] by simp
      moreover have "b \<le> 3" using lo [OF b] by simp
      ultimately show False by simp
    qed
    then show "fst ` set (long_stocks c) \<inter> fst ` set (short_stocks c) = {}
            \<and> (\<forall>r \<in> set (long_stocks c). 7 \<le> snd r)
            \<and> (\<forall>r \<in> set (short_stocks c). snd r \<le> 3)"
      using hi lo by blast
  qed
  show ?thesis
    using range out subl subs lenl lens srtl srts dis unfolding c_def by blast
qed


lemma pt_sample_score:
  "piotroski (pt_sample s True) = 9" "piotroski (pt_sample s False) = 0"
  "pt_screen (pt_sample s good)" "pt_sid (pt_sample s good) = s"
  by (simp_all add: pt_screen_def piotroski_def pt_sample_def ROA_def ROAChange_def
      CashFlow_def CashFlowFromOps_def LongTermDebtRatioChange_def
      CurrentDebtRatioChange_def SharesOutstandingChange_def GrossMarginChange_def
      AssetsTurnoverChange_def astype_int_def fl_le_def isnan_def ev_ebitda_def)

text \<open>
  Ten securities that pass all nine checks and ten that pass none.
\<close>

theorem C7_long_short_selection_witness:
  "fst ` set (long_stocks (pt_before_trading_start
        \<lparr>is_month_end = True, results = [], long_stocks = [], short_stocks = []\<rparr>
        (map (\<lambda>s. pt_sample s True) [0..<10] @ map (\<lambda>s. pt_sample s False) [10..<20])))
   \<inter> fst ` set (short_stocks (pt_before_trading_start
        \<lparr>is_month_end = True, results = [], long_stocks = [], short_stocks = []\<rparr>
        (map (\<lambda>s. pt_sample s True) [0..<10] @ map (\<lambda>s. pt_sample s False) [10..<20])))
   = {}
   \<and> length (long_stocks (pt_before_trading_start
        \<lparr>is_month_end = True, results = [], long_stocks = [], short_stocks = []\<rparr>
        (map (\<lambda>s. pt_sample s True) [0..<10] @ map (\<lambda>s. pt_sample s False) [10..<20])))
     = 10"
proof -
  define ctx0 where
    "ctx0 = \<lparr>is_month_end = True, results = [], long_stocks = [], short_stocks = []\<rparr>"
  define universe where
    "universe = map (\<lambda>s. pt_sample s True) [0..<10] @ map (\<lambda>s. pt_sample s False) [10..<20]"
  define c where "c = pt_before_trading_start ctx0 universe"
  have m: "is_month_end ctx0"
    by (simp add: ctx0_def)
  have "map pt_sid universe = [0..<10] @ [10..<20]"
    by (simp add: universe_def comp_def pt_sample_score)
  then have d: "distinct (map pt_sid universe)"
    by simp
  have res: "results c = map (\<lambda>s. (s, 9)) [0..<10] @ map (\<lambda>s. (s, 0)) [10..<20]"
    using m by (simp add: c_def pt_before_trading_start_def Let_def pt_pipeline_output_def
        universe_def pt_sample_score comp_def)
  have hi: "10 \<le> length (filter (\<lambda>r. 7 \<le> snd r) (results c))"
    unfolding res by (simp add: comp_def)
  have lo: "10 \<le> length (filter (\<lambda>r. snd r \<le> 3) (results c))"
    unfolding res by (simp add: comp_def)
  have len: "length (results c) = 20"
    unfolding res by simp
  note t = C7_long_short_selection [OF m d, of undefined, folded c_def]
  have "fst ` set (long_stocks c) \<inter> fst ` set (short_stocks c) = {}"
    using t hi lo by blast
  moreover have "length (long_stocks c) = 10"
    using t len by simp
  ultimately show ?thesis
    unfolding c_def ctx0_def universe_def by blast
qed

text \<open>
  When the screen passes a single security, it is both the long list and the short
  list.
\<close>

theorem C7_lists_overlap_counterexample:
  "long_stocks (pt_before_trading_start
      \<lparr>is_month_end = True, results = [], long_stocks = [], short_stocks = []\<rparr>
      [pt_sample 1 True]) = [(1, 9)]
   \<and> short_stocks (pt_before_trading_start
      \<lparr>is_month_end = True, results = [], long_stocks = [], short_stocks = []\<rparr>
      [pt_sample 1 True]) = [(1, 9)]"
  by (simp add: pt_before_trading_start_def Let_def pt_pipeline_output_def pt_sample_score
      pt_sort_values_def sort_by_def)

subsection \<open>C1: the trailing-twelve-month sum\<close>

lemma bool_index_map:
  "length v = length d \<Longrightarrow>
     bool_index v (map P d) = Inr (map snd (filter (\<lambda>row. P (fst row)) (zip d v)))"
  unfolding bool_index_def
  by (induction v d rule: list_induct2) auto

lemma bool_index_self: "bool_index d (map P d) = Inr (filter P d)"
  unfolding bool_index_def
  by (induction d) auto

lemma map_fst_filter_zip:
  "length v = length d \<Longrightarrow> map fst (filter (\<lambda>row. P (fst row)) (zip d v)) = filter P d"
  by (induction v d rule: list_induct2) auto

lemma first_index_less: "u \<in> set xs \<Longrightarrow> first_index xs u < length xs"
  by (induction xs) auto

lemma nth_first_index_map_of:
  "u \<in> fst ` set ps \<Longrightarrow> map snd ps ! first_index (map fst ps) u = the (map_of ps u)"
  by (induction ps) auto

lemma sum_dedup_first:
  "sum_list (map snd (dedup_first seen ps))
     = (\<Sum>u \<in> fst ` set ps - set seen. the (map_of ps u))"
proof (induction ps arbitrary: seen)
  case Nil
  then show ?case by simp
next
  case (Cons p ps)
  obtain k x where p: "p = (k, x)" by (cases p)
  show ?case
  proof (cases "k \<in> set seen")
    case True
    have "fst ` set (p # ps) - set seen = fst ` set ps - set seen"
      using True p by auto
    moreover have "(\<Sum>u \<in> fst ` set ps - set seen. the (map_of (p # ps) u))
                 = (\<Sum>u \<in> fst ` set ps - set seen. the (map_of ps u))"
      using True p by (intro sum.cong) auto
    ultimately show ?thesis
      using True p Cons.IH [of seen] by simp
  next
    case False
    let ?R = "fst ` set ps - set (k # seen)"
    have s: "fst ` set (p # ps) - set seen = insert k ?R"
      using False p by auto
    have "(\<Sum>u \<in> insert k ?R. the (map_of (p # ps) u))
           = the (map_of (p # ps) k) + (\<Sum>u \<in> ?R. the (map_of (p # ps) u))"
      by (rule sum.insert) auto
    also have "(\<Sum>u \<in> ?R. the (map_of (p # ps) u)) = (\<Sum>u \<in> ?R. the (map_of ps u))"
      using p by (intro sum.cong) auto
    finally show ?thesis
      using False p s Cons.IH [of "k # seen"] by simp
  qed
qed

lemma sum_unique_index:
  "sum_list (map (\<lambda>i. map snd ps ! i) (np_unique_index (map fst ps)))
     = (\<Sum>u \<in> fst ` set ps. the (map_of ps u))"
proof -
  let ?us = "sort (remdups (map fst ps))"
  have d: "distinct ?us" and s: "set ?us = fst ` set ps"
    by simp_all
  have "map (\<lambda>i. map snd ps ! i) (np_unique_index (map fst ps))
          = map (\<lambda>u. map snd ps ! first_index (map fst ps) u) ?us"
    by (simp add: np_unique_index_def comp_def)
  also have "\<dots> = map (\<lambda>u. the (map_of ps u)) ?us"
    by (rule map_cong) (simp_all add: nth_first_index_map_of)
  finally have "sum_list (map (\<lambda>i. map snd ps ! i) (np_unique_index (map fst ps)))
          = sum_list (map (\<lambda>u. the (map_of ps u)) ?us)"
    by simp
  also have "\<dots> = (\<Sum>u \<in> set ?us. the (map_of ps u))"
    using d by (rule sum_list_distinct_conv_sum_set)
  finally show ?thesis
    using s by simp
qed

lemma fancy_index_unique:
  "fancy_index (map snd ps) (np_unique_index (map fst ps))
     = Inr (map (\<lambda>i. map snd ps ! i) (np_unique_index (map fst ps)))"
proof -
  have "list_all (\<lambda>i. i < length (map snd ps)) (np_unique_index (map fst ps))"
    using first_index_less [of _ "map fst ps"]
    by (auto simp: list_all_iff np_unique_index_def)
  then show ?thesis
    by (simp add: fancy_index_def)
qed

lemma ttm_column_eq:
  assumes "length v = length d" and "d \<noteq> []"
  shows "ttm_column v d = Inr (ttm_last_row_spec v d)"
proof -
  let ?P = "\<lambda>x. datetime64_gt (datetime64_add x timedelta64_52W) (last d)"
  let ?ps = "filter (\<lambda>row. ?P (fst row)) (zip d v)"
  have w: "in_window d = Inr (map ?P d)"
    using assms(2) by (simp add: in_window_def)
  have vs: "bool_index v (map ?P d) = Inr (map snd ?ps)"
    using assms(1) by (rule bool_index_map)
  have ds: "bool_index d (map ?P d) = Inr (map fst ?ps)"
    using bool_index_self [of d ?P] map_fst_filter_zip [OF assms(1), of ?P] by simp
  have "ttm_column v d
          = Inr (sum_list (map (\<lambda>i. map snd ?ps ! i) (np_unique_index (map fst ?ps))))"
    by (simp add: ttm_column_def w vs ds fancy_index_unique)
  also have "sum_list (map (\<lambda>i. map snd ?ps ! i) (np_unique_index (map fst ?ps)))
          = sum_list (map snd (dedup_first [] ?ps))"
    by (simp add: sum_unique_index sum_dedup_first)
  finally show ?thesis
    by (simp add: ttm_last_row_spec_def)
qed

lemma datetime64_window_in_range:
  assumes "NaT < x" and "x + timedelta64_52W < 2 ^ 63" and "NaT < l"
  shows "datetime64_gt (datetime64_add x timedelta64_52W) l = (l < x + timedelta64_52W)"
proof -
  have lo: "- (2 ^ 63) < x + timedelta64_52W"
    using assms(1) by (simp add: NaT_def timedelta64_52W_def)
  then have "0 \<le> x + timedelta64_52W + 2 ^ 63" and "x + timedelta64_52W + 2 ^ 63 < 2 ^ 64"
    using assms(2) by simp_all
  then have "(x + timedelta64_52W + 2 ^ 63) mod 2 ^ 64 = x + timedelta64_52W + 2 ^ 63"
    by (rule mod_pos_pos_trivial)
  then have "wrap64 (x + timedelta64_52W) = x + timedelta64_52W"
    by (simp add: wrap64_def)
  then show ?thesis
    using assms(1,3) lo by (simp add: datetime64_gt_def datetime64_add_def NaT_def)
qed

lemma last_is_latest:
  assumes "d \<noteq> []" and "\<forall>x \<in> set d. x \<le> last d"
  shows "latest_date d = last d"
  unfolding latest_date_def
  using assms by (intro Max_eqI) auto

lemma ttm_last_row_spec_chronological:
  assumes "length v = length d" and "d \<noteq> []"
    and "\<forall>x \<in> set d. NaT < x \<and> x + timedelta64_52W < 2 ^ 63 \<and> x \<le> last d"
  shows "ttm_last_row_spec v d = ttm_spec v d"
proof -
  have l: "latest_date d = last d"
    using assms(2,3) by (intro last_is_latest) auto
  have nl: "NaT < last d"
    using assms(2,3) last_in_set by blast
  have "filter (\<lambda>row. datetime64_gt (datetime64_add (fst row) timedelta64_52W) (last d))
          (zip d v)
        = filter (\<lambda>row. latest_date d < fst row + timedelta64_52W) (zip d v)"
  proof (rule filter_cong [OF refl])
    fix row assume "row \<in> set (zip d v)"
    then have "fst row \<in> set d"
      by (metis in_set_zipE prod.collapse)
    then show "datetime64_gt (datetime64_add (fst row) timedelta64_52W) (last d)
                 = (latest_date d < fst row + timedelta64_52W)"
      using assms(3) nl l by (simp add: datetime64_window_in_range)
  qed
  then show ?thesis
    by (simp add: ttm_last_row_spec_def ttm_spec_def)
qed

lemma collect_map_Inr: "collect (map (\<lambda>c. Inr (f c)) cs) = Inr (map f cs)"
  by (induction cs) auto

lemma T_rect:
  assumes "arr \<noteq> []" and "\<forall>row \<in> set arr. length row = n"
  shows "T arr = map (\<lambda>c. map (\<lambda>row. row ! c) arr) [0..<n]"
proof -
  have "shape1 arr = n"
    using assms by (cases arr) (auto simp: shape1_def)
  then show ?thesis by (simp add: T_def)
qed

lemma map2_map_same:
  "map2 f (map g cs) (map h cs) = map (\<lambda>c. f (g c) (h c)) cs"
  by (induction cs) auto

lemma TrailingTwelveMonths_compute_spec:
  assumes "values \<noteq> []" and "length values = length dates"
    and "\<forall>row \<in> set values. length row = n" and "\<forall>row \<in> set dates. length row = n"
  shows "\<exists>factor. TrailingTwelveMonths_compute n values dates = Inr (factor, last dates)
     \<and> length factor = n
     \<and> (\<forall>c < n. factor ! c =
            ttm_last_row_spec (map (\<lambda>row. row ! c) values) (map (\<lambda>row. row ! c) dates))"
proof -
  let ?v = "\<lambda>c. map (\<lambda>row. row ! c) values" and ?d = "\<lambda>c. map (\<lambda>row. row ! c) dates"
  let ?factor = "map (\<lambda>c. ttm_last_row_spec (?v c) (?d c)) [0..<n]"
  have dne: "dates \<noteq> []"
    using assms(1,2) by auto
  have col: "ttm_column (?v c) (?d c) = Inr (ttm_last_row_spec (?v c) (?d c))" for c
    by (rule ttm_column_eq) (use assms(2) dne in simp_all)
  have "map2 ttm_column (T values) (T dates) = map (\<lambda>c. ttm_column (?v c) (?d c)) [0..<n]"
    using T_rect [OF assms(1,3)] T_rect [OF dne assms(4)] by (simp add: map2_map_same)
  also have "\<dots> = map (\<lambda>c. Inr (ttm_last_row_spec (?v c) (?d c))) [0..<n]"
    by (rule map_cong) (simp_all add: col)
  finally have "collect (map2 ttm_column (T values) (T dates)) = Inr ?factor"
    by (simp add: collect_map_Inr)
  moreover have "assign_all n ?factor = Inr ?factor"
    by (simp add: assign_all_def)
  moreover have "last_row dates = Inr (last dates)"
    using dne by (simp add: last_row_def)
  moreover have "assign_all n (last dates) = Inr (last dates)"
    using dne assms(4) by (simp add: assign_all_def)
  ultimately have "TrailingTwelveMonths_compute n values dates = Inr (?factor, last dates)"
    by (simp add: TrailingTwelveMonths_compute_def)
  then show ?thesis
    by (intro exI [of _ ?factor]) simp
qed

lemmas ttm_eval = ttm_column_def in_window_def bool_index_def np_unique_index_def
  fancy_index_def timedelta64_1D_def timedelta64_52W_def zero_fl_def
  datetime64_gt_def datetime64_add_def wrap64_def NaT_def

lemma ttm_column_four_quarters:
  "ttm_column [Num 10, Num 10, Num 10, Num 10]
     [100 * timedelta64_1D, 190 * timedelta64_1D, 280 * timedelta64_1D, 370 * timedelta64_1D]
   = Inr (Num 40)"
  by (simp add: ttm_eval)

lemma ttm_column_duplicate_date:
  "ttm_column [Num 10, Num 99, Num 10, Num 10, Num 10]
     [100 * timedelta64_1D, 100 * timedelta64_1D, 190 * timedelta64_1D, 280 * timedelta64_1D,
      370 * timedelta64_1D]
   = Inr (Num 40)"
  by (simp add: ttm_eval)

lemma ttm_column_five_dates:
  "ttm_column [Num 10, Num 10, Num 10, Num 10, Num 10]
     [100 * timedelta64_1D, 150 * timedelta64_1D, 190 * timedelta64_1D, 280 * timedelta64_1D,
      370 * timedelta64_1D]
   = Inr (Num 50)"
  by (simp add: ttm_eval)

lemma ttm_column_all_NaT: "ttm_column [Num 10, Num 20] [NaT, NaT] = Inr (Num 0)"
  by (simp add: ttm_eval)

lemma ttm_column_wraps:
  "ttm_column [Num 5, Num 6] [2 ^ 63 - 2, 2 ^ 63 - 1] = Inr (Num 0)"
  by (simp add: ttm_eval)

text \<open>
  A window whose last row does not carry the latest date: values 10, 20, 40 on days
  500, 100, 110.  Only day 500 is within 52 weeks of the latest date (day 500), so the
  specified sum is 10; the code counts the 52 weeks from the last row (day 110), keeps
  all three rows and returns 70.
\<close>

theorem C1_last_row_counterexample:
  "ttm_column [Num 10, Num 20, Num 40]
     [500 * timedelta64_1D, 100 * timedelta64_1D, 110 * timedelta64_1D] = Inr (Num 70)
   \<and> ttm_spec [Num 10, Num 20, Num 40]
     [500 * timedelta64_1D, 100 * timedelta64_1D, 110 * timedelta64_1D] = Num 10"
  by (simp add: ttm_eval ttm_spec_def latest_date_def)



lemma ttm_spec_sample_0:
  "ttm_spec [Num 7, Num 10, Num 10, Num 99, Num 10, Num 10, Num 10]
     [0, 100 * timedelta64_1D, 200 * timedelta64_1D, 200 * timedelta64_1D,
      300 * timedelta64_1D, 400 * timedelta64_1D, 500 * timedelta64_1D] = Num 40"
  by (simp add: ttm_spec_def latest_date_def timedelta64_1D_def timedelta64_52W_def zero_fl_def)

lemma ttm_last_row_spec_sample_1:
  "ttm_last_row_spec [Num 10, Num 10, Num 10, Num 10, Num 10, Num 10, Num 10]
     [150 * timedelta64_1D, 200 * timedelta64_1D, 250 * timedelta64_1D, 300 * timedelta64_1D,
      350 * timedelta64_1D, 400 * timedelta64_1D, 500 * timedelta64_1D] = Num 70"
  by (simp add: ttm_last_row_spec_def ttm_eval)

text \<open>
  C1 (amended).  On a window of at least one row, \<open>n\<close> securities wide, the factor
  returns for every security the sum of the values of the rows whose as-of date plus 52
  weeks is later than the as-of date of the last row of the window, one row per as-of
  date, the first in window order; and \<open>asof_date\<close> is the last row of the dates.
  When no date of the column is NaT, later than that of the last row, or within 52 weeks
  of the end of the 64-bit range, this is the sum specified from the latest date.  For
  dates in that range the comparison of the code is the comparison of integers (a NaT is
  never selected, and an addition that leaves the range wraps).  In particular four
  distinct in-window dates with values 10 give 40, a value (99) at a repeated date is
  left out, and five distinct in-window dates are all summed (50).
\<close>

theorem C1_trailing_twelve_months:
  assumes "values \<noteq> []" and "length values = length dates"
    and "\<forall>row \<in> set values. length row = n" and "\<forall>row \<in> set dates. length row = n"
  shows "(\<exists>factor. TrailingTwelveMonths_compute n values dates = Inr (factor, last dates)
       \<and> length factor = n
       \<and> (\<forall>c < n.
            factor ! c =
              ttm_last_row_spec (map (\<lambda>row. row ! c) values) (map (\<lambda>row. row ! c) dates)
            \<and> ((\<forall>row \<in> set dates. NaT < row ! c \<and> row ! c + timedelta64_52W < 2 ^ 63
                                     \<and> row ! c \<le> last dates ! c)
               \<longrightarrow> factor ! c =
                     ttm_spec (map (\<lambda>row. row ! c) values) (map (\<lambda>row. row ! c) dates))))
     \<and> (\<forall>x l. NaT < x \<and> x + timedelta64_52W < 2 ^ 63 \<and> NaT < l \<longrightarrow>
            datetime64_gt (datetime64_add x timedelta64_52W) l = (l < x + timedelta64_52W))
     \<and> ttm_column [Num 10, Num 10, Num 10, Num 10]
          [100 * timedelta64_1D, 190 * timedelta64_1D, 280 * timedelta64_1D,
           370 * timedelta64_1D] = Inr (Num 40)
     \<and> ttm_column [Num 10, Num 99, Num 10, Num 10, Num 10]
          [100 * timedelta64_1D, 100 * timedelta64_1D, 190 * timedelta64_1D,
           280 * timedelta64_1D, 370 * timedelta64_1D] = Inr (Num 40)
     \<and> ttm_column [Num 10, Num 10, Num 10, Num 10, Num 10]
          [100 * timedelta64_1D, 150 * timedelta64_1D, 190 * timedelta64_1D,
           280 * timedelta64_1D, 370 * timedelta64_1D] = Inr (Num 50)"
proof -
  let ?v = "\<lambda>c. map (\<lambda>row. row ! c) values" and ?d = "\<lambda>c. map (\<lambda>row. row ! c) dates"
  have dne: "dates \<noteq> []"
    using assms(1,2) by auto
  obtain factor where f: "TrailingTwelveMonths_compute n values dates = Inr (factor, last dates)"
    "length factor = n" "\<forall>c < n. factor ! c = ttm_last_row_spec (?v c) (?d c)"
    using TrailingTwelveMonths_compute_spec [OF assms] by blast
  have chron: "ttm_last_row_spec (?v c) (?d c) = ttm_spec (?v c) (?d c)"
    if "\<forall>row \<in> set dates. NaT < row ! c \<and> row ! c + timedelta64_52W < 2 ^ 63
                                     \<and> row ! c \<le> last dates ! c" for c
  proof (rule ttm_last_row_spec_chronological)
    show "length (?v c) = length (?d c)" using assms(2) by simp
    show "?d c \<noteq> []" using dne by simp
    have "last (?d c) = last dates ! c" using dne by (simp add: last_map)
    then show "\<forall>x \<in> set (?d c). NaT < x \<and> x + timedelta64_52W < 2 ^ 63 \<and> x \<le> last (?d c)"
      using that by auto
  qed
  have one: "\<exists>factor. TrailingTwelveMonths_compute n values dates = Inr (factor, last dates)
       \<and> length factor = n
       \<and> (\<forall>c < n.
            factor ! c = ttm_last_row_spec (?v c) (?d c)
            \<and> ((\<forall>row \<in> set dates. NaT < row ! c \<and> row ! c + timedelta64_52W < 2 ^ 63
                                     \<and> row ! c \<le> last dates ! c)
               \<longrightarrow> factor ! c = ttm_spec (?v c) (?d c)))"
    using f chron by (intro exI [of _ factor]) auto
  have two: "\<forall>x l. NaT < x \<and> x + timedelta64_52W < 2 ^ 63 \<and> NaT < l \<longrightarrow>
            datetime64_gt (datetime64_add x timedelta64_52W) l = (l < x + timedelta64_52W)"
    using datetime64_window_in_range by blast
  show ?thesis
    using one two ttm_column_four_quarters ttm_column_duplicate_date ttm_column_five_dates
    by blast
qed

text \<open>
  A window of seven rows and two securities: the first has an old row and a repeated
  date, the second has seven distinct dates in the window.
\<close>

theorem C1_trailing_twelve_months_witness:
  "\<exists>factor. TrailingTwelveMonths_compute 2
       [[Num 7, Num 10], [Num 10, Num 10], [Num 10, Num 10], [Num 99, Num 10],
        [Num 10, Num 10], [Num 10, Num 10], [Num 10, Num 10]]
       [[0, 150 * timedelta64_1D], [100 * timedelta64_1D, 200 * timedelta64_1D],
        [200 * timedelta64_1D, 250 * timedelta64_1D],
        [200 * timedelta64_1D, 300 * timedelta64_1D],
        [300 * timedelta64_1D, 350 * timedelta64_1D],
        [400 * timedelta64_1D, 400 * timedelta64_1D],
        [500 * timedelta64_1D, 500 * timedelta64_1D]]
     = Inr (factor, [500 * timedelta64_1D, 500 * timedelta64_1D])
     \<and> factor ! 0 = Num 40 \<and> factor ! 1 = Num 70"
proof -
  define V where "V = [[Num 7, Num 10], [Num 10, Num 10], [Num 10, Num 10], [Num 99, Num 10],
        [Num 10, Num 10], [Num 10, Num 10], [Num 10, Num 10]]"
  define Dt where "Dt = [[0, 150 * timedelta64_1D], [100 * timedelta64_1D, 200 * timedelta64_1D],
        [200 * timedelta64_1D, 250 * timedelta64_1D],
        [200 * timedelta64_1D, 300 * timedelta64_1D],
        [300 * timedelta64_1D, 350 * timedelta64_1D],
        [400 * timedelta64_1D, 400 * timedelta64_1D],
        [500 * timedelta64_1D, 500 * timedelta64_1D]]"
  have h1: "V \<noteq> []" and h2: "length V = length Dt"
    and h3: "\<forall>row \<in> set V. length row = 2" and h4: "\<forall>row \<in> set Dt. length row = 2"
    by (simp_all add: V_def Dt_def)
  have h5: "\<forall>row \<in> set Dt. NaT < row ! 0 \<and> row ! 0 + timedelta64_52W < 2 ^ 63
                           \<and> row ! 0 \<le> last Dt ! 0"
    by (simp add: Dt_def timedelta64_1D_def timedelta64_52W_def NaT_def)
  from C1_trailing_twelve_months [OF h1 h2 h3 h4] obtain factor where
    c: "TrailingTwelveMonths_compute 2 V Dt = Inr (factor, last Dt)"
    and f: "\<forall>c < 2.
            factor ! c =
              ttm_last_row_spec (map (\<lambda>row. row ! c) V) (map (\<lambda>row. row ! c) Dt)
            \<and> ((\<forall>row \<in> set Dt. NaT < row ! c \<and> row ! c + timedelta64_52W < 2 ^ 63
                                     \<and> row ! c \<le> last Dt ! c)
               \<longrightarrow> factor ! c =
                     ttm_spec (map (\<lambda>row. row ! c) V) (map (\<lambda>row. row ! c) Dt))"
    by blast
  have z: "(0::nat) < 2"
    by simp
  have "factor ! 0 = ttm_spec (map (\<lambda>row. row ! 0) V) (map (\<lambda>row. row ! 0) Dt)"
    using f [rule_format, OF z] h5 by blast
  then have "factor ! 0 = Num 40"
    using ttm_spec_sample_0 by (simp add: V_def Dt_def)
  moreover have "factor ! 1 = Num 70"
    using f [rule_format, of 1] ttm_last_row_spec_sample_1 by (simp add: V_def Dt_def)
  moreover have "last Dt = [500 * timedelta64_1D, 500 * timedelta64_1D]"
    by (simp add: Dt_def)
  ultimately show ?thesis
    using c unfolding V_def Dt_def by auto
qed

end
